theory Spec2Isabelle
  imports Complex_Main "HOL-Library.AList"
begin

section \<open>Errors\<close>

text \<open>
  Every exception the modelled code can raise is a value.  \<open>InputNotTensor\<close> is the
  \<^verbatim>\<open>Exception("Input must be Tensor ...")\<close> of \<^verbatim>\<open>RNNUnit.forward\<close>;
  the others are the Python and numpy exceptions of the same names.
\<close>

datatype error = InputNotTensor | AttributeError | ValueError | IndexError | TypeError

section \<open>Arrays and tensors\<close>

text \<open>
  A two-dimensional numpy array of shape \<open>(length rows, ncols)\<close>.  The column count
  is kept beside the rows, so that an array with no rows still has a shape.  Floating
  point numbers are idealised as reals.
\<close>

record array2 =
  ncols :: nat
  rows :: "real list list"

definition nrows :: "array2 \<Rightarrow> nat" where
  "nrows a = length (rows a)"

text \<open>The rows of a well-shaped array all have \<open>ncols\<close> entries.\<close>

definition rect :: "array2 \<Rightarrow> bool" where
  "rect a = list_all (\<lambda>r. length r = ncols a) (rows a)"

text \<open>
  Modelled from the spec: the Tensor class (module \<^verbatim>\<open>mytorch.tensor\<close>) is not among
  the sources.  A tensor holds a value, an optional gradient and the flags
  requires-gradient and is-learnable-parameter (spec, data model).  \<open>grad\<close> is the value
  of the gradient tensor, \<open>None\<close> when the attribute is \<^verbatim>\<open>None\<close>.
\<close>

record 'd Tensor =
  data :: 'd
  grad :: "'d option"
  requires_grad :: bool
  is_parameter :: bool

text \<open>The constructor call \<^verbatim>\<open>Tensor(d, requires_grad=rg, is_parameter=ip)\<close>.\<close>

definition Tensor_init :: "'d \<Rightarrow> bool \<Rightarrow> bool \<Rightarrow> 'd Tensor" where
  "Tensor_init d rg ip = \<lparr>data = d, grad = None, requires_grad = rg, is_parameter = ip\<rparr>"

text \<open>
  Modelled from the spec: the result of a tensor operation is a new tensor; the
  gradient-requirement flag is propagated from the operands, and the result is not a
  learnable parameter.
\<close>

definition op_result :: "'d \<Rightarrow> bool \<Rightarrow> 'd Tensor" where
  "op_result d rg = \<lparr>data = d, grad = None, requires_grad = rg, is_parameter = False\<rparr>"

definition np_zeros :: "nat \<Rightarrow> real list" where
  "np_zeros n = replicate n 0"

definition np_zeros2 :: "nat \<times> nat \<Rightarrow> array2" where
  "np_zeros2 sh = \<lparr>ncols = snd sh, rows = replicate (fst sh) (replicate (snd sh) 0)\<rparr>"

text \<open>\<^verbatim>\<open>np.random.randn(r, c)\<close>, the draw given as a function of the position.\<close>

definition np_randn :: "(nat \<Rightarrow> nat \<Rightarrow> real) \<Rightarrow> nat \<Rightarrow> nat \<Rightarrow> array2" where
  "np_randn rnd r c = \<lparr>ncols = c, rows = map (\<lambda>i. map (rnd i) [0..<c]) [0..<r]\<rparr>"

subsection \<open>Slicing and indexing\<close>

text \<open>
  Python's \<^verbatim>\<open>xs[start:stop]\<close> on a sequence of length \<open>n\<close>: a negative bound counts
  from the end, and both bounds are clamped into \<open>[0, n]\<close>.
\<close>

definition slice_bound :: "int \<Rightarrow> int \<Rightarrow> int" where
  "slice_bound n i = (if i < 0 then max (i + n) 0 else min i n)"

definition py_slice :: "'a list \<Rightarrow> int \<Rightarrow> int \<Rightarrow> 'a list" where
  "py_slice xs start stop =
     (let n = int (length xs); s = slice_bound n start; e = slice_bound n stop
      in take (nat (e - s)) (drop (nat s) xs))"

text \<open>
  Modelled from the spec: row-slicing \<^verbatim>\<open>t[start:stop]\<close> of a tensor
  (\<^verbatim>\<open>Tensor.__getitem__\<close> is not among the sources).
\<close>

definition getitem_slice :: "array2 Tensor \<Rightarrow> int \<Rightarrow> int \<Rightarrow> array2 Tensor" where
  "getitem_slice t start stop =
     op_result \<lparr>ncols = ncols (data t), rows = py_slice (rows (data t)) start stop\<rparr>
       (requires_grad t)"

text \<open>
  Modelled from the spec: \<^verbatim>\<open>t[None, -1, :]\<close>, the last row of a tensor as a tensor
  of one row; numpy raises IndexError when there is no row.
\<close>

definition getitem_last_row :: "array2 Tensor \<Rightarrow> error + array2 Tensor" where
  "getitem_last_row t =
     (if rows (data t) = [] then Inl IndexError
      else Inr (op_result \<lparr>ncols = ncols (data t), rows = [last (rows (data t))]\<rparr>
                  (requires_grad t)))"

text \<open>\<^verbatim>\<open>t.shape[0]\<close>\<close>

definition shape0 :: "array2 Tensor \<Rightarrow> int" where
  "shape0 t = int (nrows (data t))"

subsection \<open>Arithmetic\<close>

text \<open>
  Modelled from the spec: transpose, matrix multiply and elementwise add of the tensor
  collaborator, with numpy's shape rules: the inner dimensions of a product must agree,
  and the operands of a sum are broadcast (two dimensions are compatible when they are
  equal or one of them is 1).  A shape mismatch is numpy's ValueError.
\<close>

definition transpose2 :: "array2 \<Rightarrow> array2" where
  "transpose2 a = \<lparr>ncols = nrows a, rows = map (\<lambda>j. map (\<lambda>r. r ! j) (rows a)) [0..<ncols a]\<rparr>"

definition matmul2 :: "array2 \<Rightarrow> array2 \<Rightarrow> error + array2" where
  "matmul2 a b =
     (if ncols a \<noteq> nrows b then Inl ValueError
      else Inr \<lparr>ncols = ncols b,
                rows = map (\<lambda>r. map (\<lambda>j. sum_list (map (\<lambda>k. r ! k * (rows b ! k ! j)) [0..<ncols a]))
                                  [0..<ncols b])
                           (rows a)\<rparr>)"

definition broadcast_dim :: "nat \<Rightarrow> nat \<Rightarrow> nat option" where
  "broadcast_dim m n =
     (if m = n then Some m else if m = 1 then Some n else if n = 1 then Some m else None)"

definition elem2 :: "array2 \<Rightarrow> nat \<Rightarrow> nat \<Rightarrow> real" where
  "elem2 a i j = rows a ! (if nrows a = 1 then 0 else i) ! (if ncols a = 1 then 0 else j)"

definition add2 :: "array2 \<Rightarrow> array2 \<Rightarrow> error + array2" where
  "add2 a b =
     (case broadcast_dim (nrows a) (nrows b) of
        None \<Rightarrow> Inl ValueError
      | Some r \<Rightarrow>
         (case broadcast_dim (ncols a) (ncols b) of
            None \<Rightarrow> Inl ValueError
          | Some c \<Rightarrow>
              Inr \<lparr>ncols = c,
                   rows = map (\<lambda>i. map (\<lambda>j. elem2 a i j + elem2 b i j) [0..<c]) [0..<r]\<rparr>))"

text \<open>A one-dimensional array of length \<open>n\<close> is broadcast as an array of shape \<open>(1, n)\<close>.\<close>

definition as_row :: "real list \<Rightarrow> array2" where
  "as_row v = \<lparr>ncols = length v, rows = [v]\<rparr>"

definition Tensor_T :: "array2 Tensor \<Rightarrow> array2 Tensor" where
  "Tensor_T t = op_result (transpose2 (data t)) (requires_grad t)"

definition Tensor_matmul :: "array2 Tensor \<Rightarrow> array2 Tensor \<Rightarrow> error + array2 Tensor" where
  "Tensor_matmul t u =
     (case matmul2 (data t) (data u) of
        Inl e \<Rightarrow> Inl e
      | Inr d \<Rightarrow> Inr (op_result d (requires_grad t \<or> requires_grad u)))"

definition Tensor_add :: "array2 Tensor \<Rightarrow> array2 Tensor \<Rightarrow> error + array2 Tensor" where
  "Tensor_add t u =
     (case add2 (data t) (data u) of
        Inl e \<Rightarrow> Inl e
      | Inr d \<Rightarrow> Inr (op_result d (requires_grad t \<or> requires_grad u)))"

definition Tensor_add_vec :: "array2 Tensor \<Rightarrow> real list Tensor \<Rightarrow> error + array2 Tensor" where
  "Tensor_add_vec t b =
     (case add2 (data t) (as_row (data b)) of
        Inl e \<Rightarrow> Inl e
      | Inr d \<Rightarrow> Inr (op_result d (requires_grad t \<or> requires_grad b)))"

text \<open>
  Modelled from the spec: \<^verbatim>\<open>tensor.cat(seq)\<close>, row-concatenation along the leading
  dimension.  As numpy's concatenate, it needs at least one array, and all arrays must
  have the same number of columns.
\<close>

definition cat :: "array2 Tensor list \<Rightarrow> error + array2 Tensor" where
  "cat ts =
     (case ts of
        [] \<Rightarrow> Inl ValueError
      | t # _ \<Rightarrow>
          if list_all (\<lambda>u. ncols (data u) = ncols (data t)) ts
          then Inr (op_result \<lparr>ncols = ncols (data t), rows = concat (map (\<lambda>u. rows (data u)) ts)\<rparr>
                      (list_ex requires_grad ts))
          else Inl ValueError)"

subsection \<open>Activations\<close>

text \<open>
  Modelled from the spec: the activations \<^verbatim>\<open>Tanh()\<close> and \<^verbatim>\<open>ReLU()\<close> of
  \<^verbatim>\<open>mytorch.nn.activations\<close> are stateless pointwise functions over a tensor.
\<close>

datatype activation = Tanh | ReLU

fun act_fun :: "activation \<Rightarrow> real \<Rightarrow> real" where
  "act_fun Tanh v = tanh v"
| "act_fun ReLU v = max 0 v"

definition apply_act :: "activation \<Rightarrow> array2 Tensor \<Rightarrow> array2 Tensor" where
  "apply_act f t =
     op_result \<lparr>ncols = ncols (data t), rows = map (map (act_fun f)) (rows (data t))\<rparr>
       (requires_grad t)"

section \<open>RNNUnit\<close>

text \<open>
  The attributes of an \<^verbatim>\<open>RNNUnit\<close> object.  \<open>act = None\<close> says that the attribute
  \<^verbatim>\<open>act\<close> was never set.
\<close>

record RNNUnit =
  weight_ih :: "array2 Tensor"
  bias_ih :: "real list Tensor"
  weight_hh :: "array2 Tensor"
  bias_hh :: "real list Tensor"
  hidden_size :: nat
  act :: "activation option"

text \<open>
  \<^verbatim>\<open>RNNUnit.__init__(input_size, hidden_size, nonlinearity)\<close>.  The two draws of
  \<^verbatim>\<open>np.random.randn\<close> are the parameters \<open>rnd_ih\<close> and \<open>rnd_hh\<close>.
\<close>

definition RNNUnit_init ::
  "(nat \<Rightarrow> nat \<Rightarrow> real) \<Rightarrow> (nat \<Rightarrow> nat \<Rightarrow> real) \<Rightarrow> nat \<Rightarrow> nat \<Rightarrow> string \<Rightarrow> RNNUnit" where
  "RNNUnit_init rnd_ih rnd_hh input_size hidden_sz nonlinearity =
     \<lparr>weight_ih = Tensor_init (np_randn rnd_ih hidden_sz input_size) True True,
      bias_ih = Tensor_init (np_zeros hidden_sz) True True,
      weight_hh = Tensor_init (np_randn rnd_hh hidden_sz hidden_sz) True True,
      bias_hh = Tensor_init (np_zeros hidden_sz) True True,
      hidden_size = hidden_sz,
      act = (if nonlinearity = ''tanh'' then Some Tanh
             else if nonlinearity = ''relu'' then Some ReLU
             else None)\<rparr>"

text \<open>The argument \<^verbatim>\<open>x\<close> of \<^verbatim>\<open>forward\<close>: a Tensor, or an object of another type.\<close>

datatype pyarg = IsTensor "array2 Tensor" | NotTensor

text \<open>
  Lines 70 to 74 of \<^verbatim>\<open>RNNUnit.forward\<close>: the hidden state that is used.  The test
  \<^verbatim>\<open>not hidden\<close> holds for \<^verbatim>\<open>None\<close>; for a Tensor, Python asks the Tensor class
  for the truth value, and that class is not among the sources: it is the parameter
  \<open>tensor_bool\<close>.
\<close>

definition resolve_hidden ::
  "(array2 Tensor \<Rightarrow> bool) \<Rightarrow> RNNUnit \<Rightarrow> array2 Tensor \<Rightarrow> array2 Tensor option \<Rightarrow> array2 Tensor" where
  "resolve_hidden tensor_bool self x hidden =
     (case hidden of
        None \<Rightarrow> Tensor_init (np_zeros2 (nrows (data x), hidden_size self)) True True
      | Some h \<Rightarrow>
          if \<not> tensor_bool h
          then Tensor_init (np_zeros2 (nrows (data x), hidden_size self)) True True
          else h)"

text \<open>Lines 76 to 78: the weighted sum, operands evaluated left to right.\<close>

definition weighted_sum :: "RNNUnit \<Rightarrow> array2 Tensor \<Rightarrow> array2 Tensor \<Rightarrow> error + array2 Tensor" where
  "weighted_sum self x hidden =
     (case Tensor_matmul x (Tensor_T (weight_ih self)) of
        Inl e \<Rightarrow> Inl e
      | Inr xw \<Rightarrow>
     (case Tensor_add_vec xw (bias_ih self) of
        Inl e \<Rightarrow> Inl e
      | Inr lhs \<Rightarrow>
     (case Tensor_matmul hidden (Tensor_T (weight_hh self)) of
        Inl e \<Rightarrow> Inl e
      | Inr hw \<Rightarrow>
     (case Tensor_add_vec hw (bias_hh self) of
        Inl e \<Rightarrow> Inl e
      | Inr rhs \<Rightarrow> Tensor_add lhs rhs))))"

definition RNNUnit_forward ::
  "(array2 Tensor \<Rightarrow> bool) \<Rightarrow> RNNUnit \<Rightarrow> pyarg \<Rightarrow> array2 Tensor option \<Rightarrow> error + array2 Tensor" where
  "RNNUnit_forward tensor_bool self x hidden =
     (case x of
        NotTensor \<Rightarrow> Inl InputNotTensor
      | IsTensor xt \<Rightarrow>
         (case weighted_sum self xt (resolve_hidden tensor_bool self xt hidden) of
            Inl e \<Rightarrow> Inl e
          | Inr ws \<Rightarrow>
             (case act self of
                None \<Rightarrow> Inl AttributeError
              | Some f \<Rightarrow> Inr (apply_act f ws))))"

section \<open>TimeIterator\<close>

text \<open>The named tuple \<^verbatim>\<open>PackedSequence(data, sorted_indices, batch_sizes)\<close>.\<close>

record PackedSequence =
  ps_data :: "array2 Tensor"
  ps_sorted_indices :: "int list"
  ps_batch_sizes :: "int list"

text \<open>
  The unit of a \<^verbatim>\<open>TimeIterator\<close> is an object of the class given to the constructor
  (\<^verbatim>\<open>RNNUnit\<close> or another unit); the iterator only calls its \<^verbatim>\<open>forward\<close>.
\<close>

type_synonym unit_forward = "array2 Tensor \<Rightarrow> array2 Tensor option \<Rightarrow> error + array2 Tensor"

definition RNNUnit_as_unit :: "(array2 Tensor \<Rightarrow> bool) \<Rightarrow> RNNUnit \<Rightarrow> unit_forward" where
  "RNNUnit_as_unit tensor_bool u = (\<lambda>x h. RNNUnit_forward tensor_bool u (IsTensor x) h)"

text \<open>Lines 126 to 134: the list \<^verbatim>\<open>X\<close> of the slices \<^verbatim>\<open>data[start:end]\<close>.\<close>

fun segments :: "array2 Tensor \<Rightarrow> int \<Rightarrow> int list \<Rightarrow> array2 Tensor list" where
  "segments d start [] = []"
| "segments d start (b # bs) =
     (let end = start + b in getitem_slice d start end # segments d end bs)"

text \<open>
  An entry of \<^verbatim>\<open>hidden_states\<close>: the placeholder \<^verbatim>\<open>0\<close> of line 135, or the
  hidden state stored by line 148.
\<close>

datatype slot = Placeholder | Filled "array2 Tensor"

text \<open>
  The variables of the loop of lines 138 to 149.  \<open>unit_calls\<close> is a ghost variable:
  the arguments of each call of the unit, in the order of the calls.
\<close>

record loop_state =
  hidden_states :: "slot list"
  hidden_step_per_batch :: "array2 Tensor list"
  unit_calls :: "(array2 Tensor \<times> array2 Tensor option) list"

text \<open>
  Lines 140 to 145: \<^verbatim>\<open>h_previous\<close> at iteration \<open>i\<close>.  Slicing the placeholder
  \<^verbatim>\<open>0\<close> would be a TypeError.
\<close>

definition h_previous ::
  "array2 Tensor list \<Rightarrow> array2 Tensor option \<Rightarrow> nat \<Rightarrow> slot list \<Rightarrow> error + array2 Tensor option" where
  "h_previous X hidden i hs =
     (if i = 0 then Inr hidden
      else
        (let effective_batch_size = shape0 (X ! i) in
           case hs ! (i - 1) of
             Placeholder \<Rightarrow> Inl TypeError
           | Filled h \<Rightarrow> Inr (Some (getitem_slice h 0 effective_batch_size))))"

text \<open>One iteration of the loop, lines 139 to 149.\<close>

definition loop_body ::
  "unit_forward \<Rightarrow> array2 Tensor list \<Rightarrow> array2 Tensor option \<Rightarrow> nat \<Rightarrow> loop_state \<Rightarrow> error + loop_state" where
  "loop_body unit X hidden i st =
     (case h_previous X hidden i (hidden_states st) of
        Inl e \<Rightarrow> Inl e
      | Inr h_prev \<Rightarrow>
     (case unit (X ! i) h_prev of
        Inl e \<Rightarrow> Inl e
      | Inr hidden_state \<Rightarrow>
     (case getitem_last_row hidden_state of
        Inl e \<Rightarrow> Inl e
      | Inr last_row \<Rightarrow>
          Inr \<lparr>hidden_states = (hidden_states st)[i := Filled hidden_state],
               hidden_step_per_batch = hidden_step_per_batch st @ [last_row],
               unit_calls = unit_calls st @ [(X ! i, h_prev)]\<rparr>)))"

text \<open>The loop over \<^verbatim>\<open>range(len(X))\<close>; an exception ends it.\<close>

fun run_loop ::
  "unit_forward \<Rightarrow> array2 Tensor list \<Rightarrow> array2 Tensor option \<Rightarrow> nat list \<Rightarrow> loop_state \<Rightarrow> error + loop_state" where
  "run_loop unit X hidden [] st = Inr st"
| "run_loop unit X hidden (i # is) st =
     (case loop_body unit X hidden i st of
        Inl e \<Rightarrow> Inl e
      | Inr st' \<Rightarrow> run_loop unit X hidden is st')"

definition recurrence ::
  "unit_forward \<Rightarrow> array2 Tensor list \<Rightarrow> array2 Tensor option \<Rightarrow> error + loop_state" where
  "recurrence unit X hidden =
     run_loop unit X hidden [0..<length X]
       \<lparr>hidden_states = map (\<lambda>x. Placeholder) X, hidden_step_per_batch = [], unit_calls = []\<rparr>"

text \<open>
  Lines 153 to 156: the dictionary \<^verbatim>\<open>batch_size_sample_count\<close>, as an association
  list.  Its keys are the elements of \<^verbatim>\<open>set(batch_sizes)\<close>, here in the order of
  their first occurrence (the dictionary is only read through \<^verbatim>\<open>sorted(values())\<close>,
  which does not depend on the order).
\<close>

fun record_indices :: "int list \<Rightarrow> nat \<Rightarrow> (int \<times> nat option) list \<Rightarrow> (int \<times> nat option) list" where
  "record_indices [] i d = d"
| "record_indices (key # bs) i d = record_indices bs (Suc i) (AList.update key (Some i) d)"

definition batch_size_sample_count :: "int list \<Rightarrow> (int \<times> nat option) list" where
  "batch_size_sample_count bs = record_indices bs 0 (map (\<lambda>x. (x, None)) (remdups bs))"

text \<open>
  Line 157: \<^verbatim>\<open>sorted(batch_size_sample_count.values())\<close>.  A value \<^verbatim>\<open>None\<close> left
  in the dictionary would be a TypeError (in the comparison, or in the indexing of
  line 159).
\<close>

definition target_hidden_step_indices :: "int list \<Rightarrow> error + nat list" where
  "target_hidden_step_indices bs =
     (let vs = map snd (batch_size_sample_count bs)
      in if list_ex (\<lambda>v. v = None) vs then Inl TypeError else Inr (sort (map the vs)))"

text \<open>Lines 158 to 160: \<^verbatim>\<open>[hidden_step_per_batch[i] for i in ...]\<close>.\<close>

fun select_steps :: "array2 Tensor list \<Rightarrow> nat list \<Rightarrow> error + array2 Tensor list" where
  "select_steps hspb [] = Inr []"
| "select_steps hspb (i # is) =
     (if i < length hspb
      then (case select_steps hspb is of Inl e \<Rightarrow> Inl e | Inr ts \<Rightarrow> Inr (hspb ! i # ts))
      else Inl IndexError)"

text \<open>\<^verbatim>\<open>tensor.cat(hidden_states)\<close>: a placeholder left in the list would be a TypeError.\<close>

fun filled :: "slot list \<Rightarrow> error + array2 Tensor list" where
  "filled [] = Inr []"
| "filled (Placeholder # ss) = Inl TypeError"
| "filled (Filled t # ss) = (case filled ss of Inl e \<Rightarrow> Inl e | Inr ts \<Rightarrow> Inr (t # ts))"

text \<open>\<^verbatim>\<open>TimeIterator.forward(input, hidden)\<close>\<close>

definition TimeIterator_forward ::
  "unit_forward \<Rightarrow> PackedSequence \<Rightarrow> array2 Tensor option \<Rightarrow> error + PackedSequence \<times> array2 Tensor" where
  "TimeIterator_forward unit input hidden =
     (let X = segments (ps_data input) 0 (ps_batch_sizes input) in
      case recurrence unit X hidden of
        Inl e \<Rightarrow> Inl e
      | Inr st \<Rightarrow>
     (case target_hidden_step_indices (ps_batch_sizes input) of
        Inl e \<Rightarrow> Inl e
      | Inr targets \<Rightarrow>
     (case select_steps (hidden_step_per_batch st) targets of
        Inl e \<Rightarrow> Inl e
      | Inr selected \<Rightarrow>
     (let last_hidden_step_per_sample = rev selected in
      case filled (hidden_states st) of
        Inl e \<Rightarrow> Inl e
      | Inr hs \<Rightarrow>
     (case cat hs of
        Inl e \<Rightarrow> Inl e
      | Inr out \<Rightarrow>
     (case cat last_hidden_step_per_sample of
        Inl e \<Rightarrow> Inl e
      | Inr final \<Rightarrow>
          Inr (\<lparr>ps_data = out,
                ps_sorted_indices = ps_sorted_indices input,
                ps_batch_sizes = ps_batch_sizes input\<rparr>, final)))))))"

section \<open>SGD\<close>

text \<open>
  A numpy array of any dimension: its shape and its elements in row-major order.
\<close>

record ndarray =
  shape :: "nat list"
  elems :: "real list"

definition wf_ndarray :: "ndarray \<Rightarrow> bool" where
  "wf_ndarray a = (length (elems a) = prod_list (shape a))"

definition nd_zeros :: "nat list \<Rightarrow> ndarray" where
  "nd_zeros sh = \<lparr>shape = sh, elems = replicate (prod_list sh) 0\<rparr>"

text \<open>\<^verbatim>\<open>c * a\<close> for a Python float \<open>c\<close>\<close>

definition scalar_mul :: "real \<Rightarrow> ndarray \<Rightarrow> ndarray" where
  "scalar_mul c a = \<lparr>shape = shape a, elems = map (\<lambda>v. c * v) (elems a)\<rparr>"

text \<open>
  numpy's broadcasting of two shapes: the shorter one is padded with 1 on the left, and
  each pair of dimensions must be equal or contain a 1.
\<close>

definition pad_shape :: "nat \<Rightarrow> nat list \<Rightarrow> nat list" where
  "pad_shape n sh = replicate (n - length sh) 1 @ sh"

fun broadcast_dims :: "nat list \<Rightarrow> nat list \<Rightarrow> nat list option" where
  "broadcast_dims (m # ms) (n # ns) =
     (case broadcast_dim m n of
        None \<Rightarrow> None
      | Some d \<Rightarrow> (case broadcast_dims ms ns of None \<Rightarrow> None | Some ds \<Rightarrow> Some (d # ds)))"
| "broadcast_dims ms ns = Some []"

definition broadcast_shape :: "nat list \<Rightarrow> nat list \<Rightarrow> nat list option" where
  "broadcast_shape s1 s2 =
     (let n = max (length s1) (length s2)
      in broadcast_dims (pad_shape n s1) (pad_shape n s2))"

text \<open>The positions of an array of a given shape, in row-major order.\<close>

fun multi_indices :: "nat list \<Rightarrow> nat list list" where
  "multi_indices [] = [[]]"
| "multi_indices (n # sh) = concat (map (\<lambda>i. map (\<lambda>idx. i # idx) (multi_indices sh)) [0..<n])"

text \<open>
  The row-major offset, in an array of shape \<open>sh\<close>, of the element that is broadcast to
  position \<open>idx\<close>: along a dimension of size 1 the only element is repeated.
\<close>

definition offset :: "nat list \<Rightarrow> nat list \<Rightarrow> nat" where
  "offset sh idx = foldl (\<lambda>acc (d, i). acc * d + (if d = 1 then 0 else i)) 0 (zip sh idx)"

text \<open>
  An elementwise binary operation of numpy.  On equal shapes it pairs the elements;
  otherwise the operands are broadcast, and incompatible shapes are a ValueError.
\<close>

definition nd_binop :: "(real \<Rightarrow> real \<Rightarrow> real) \<Rightarrow> ndarray \<Rightarrow> ndarray \<Rightarrow> error + ndarray" where
  "nd_binop f a b =
     (if shape a = shape b then Inr \<lparr>shape = shape a, elems = map2 f (elems a) (elems b)\<rparr>
      else
        (case broadcast_shape (shape a) (shape b) of
           None \<Rightarrow> Inl ValueError
         | Some sh \<Rightarrow>
             Inr \<lparr>shape = sh,
                  elems = map (\<lambda>idx. f (elems a ! offset (pad_shape (length sh) (shape a)) idx)
                                        (elems b ! offset (pad_shape (length sh) (shape b)) idx))
                              (multi_indices sh)\<rparr>))"

definition nd_add :: "ndarray \<Rightarrow> ndarray \<Rightarrow> error + ndarray" where
  "nd_add = nd_binop (\<lambda>u v. u + v)"

definition nd_sub :: "ndarray \<Rightarrow> ndarray \<Rightarrow> error + ndarray" where
  "nd_sub = nd_binop (\<lambda>u v. u - v)"

text \<open>
  The parameters of an optimizer are references to Tensor objects, which
  \<^verbatim>\<open>step\<close> mutates: an object is an address of the store.
\<close>

type_synonym addr = nat
type_synonym store = "addr \<Rightarrow> ndarray Tensor"

text \<open>The attributes of an \<^verbatim>\<open>SGD\<close> object.\<close>

record SGD =
  params :: "addr list"
  lr :: real
  momentum :: real
  momentums :: "ndarray list"

text \<open>
  \<^verbatim>\<open>SGD.__init__(params, lr, momentum)\<close>.  Modelled from the spec: the parent class
  \<^verbatim>\<open>Optimizer\<close> is not among the sources; it keeps the parameters as the list
  \<^verbatim>\<open>self.params\<close>.
\<close>

definition SGD_init :: "store \<Rightarrow> addr list \<Rightarrow> real \<Rightarrow> real \<Rightarrow> SGD" where
  "SGD_init h ps eta beta =
     \<lparr>params = ps, lr = eta, momentum = beta,
      momentums = map (\<lambda>t. nd_zeros (shape (data (h t)))) ps\<rparr>"

text \<open>
  One iteration of the loop of \<^verbatim>\<open>SGD.step\<close>, lines 33 to 39.  Reading
  \<^verbatim>\<open>.data\<close> of a gradient that is \<^verbatim>\<open>None\<close> is an AttributeError.
\<close>

definition step_body :: "nat \<Rightarrow> store \<times> SGD \<Rightarrow> error + store \<times> SGD" where
  "step_body idx hs =
     (let h = fst hs; self = snd hs in
      if length (momentums self) \<le> idx then Inl IndexError
      else
        (let p = params self ! idx in
         case grad (h p) of
           None \<Rightarrow> Inl AttributeError
         | Some g \<Rightarrow>
        (case nd_sub (scalar_mul (momentum self) (momentums self ! idx)) (scalar_mul (lr self) g) of
           Inl e \<Rightarrow> Inl e
         | Inr m \<Rightarrow>
        (let self' = self\<lparr>momentums := (momentums self)[idx := m]\<rparr> in
         case nd_add (data (h p)) (momentums self' ! idx) of
           Inl e \<Rightarrow> Inl e
         | Inr d \<Rightarrow> Inr (h(p := (h p)\<lparr>data := d\<rparr>), self')))))"

fun step_loop :: "nat list \<Rightarrow> store \<times> SGD \<Rightarrow> error + store \<times> SGD" where
  "step_loop [] hs = Inr hs"
| "step_loop (idx # idxs) hs =
     (case step_body idx hs of Inl e \<Rightarrow> Inl e | Inr hs' \<Rightarrow> step_loop idxs hs')"

text \<open>\<^verbatim>\<open>SGD.step()\<close>\<close>

definition SGD_step :: "store \<times> SGD \<Rightarrow> error + store \<times> SGD" where
  "SGD_step hs = step_loop [0..<length (params (snd hs))] hs"

section \<open>Shapes and values used in the statements\<close>

text \<open>
  The shapes of the four parameters of a unit (spec, data model): the input-to-hidden
  weight is \<open>hidden_size \<times> input_size\<close>, the hidden-to-hidden weight is
  \<open>hidden_size \<times> hidden_size\<close>, and both biases have \<open>hidden_size\<close> entries.
\<close>

definition param_shapes :: "RNNUnit \<Rightarrow> nat \<Rightarrow> bool" where
  "param_shapes self input_size =
     (nrows (data (weight_ih self)) = hidden_size self \<and>
      ncols (data (weight_ih self)) = input_size \<and>
      length (data (bias_ih self)) = hidden_size self \<and>
      nrows (data (weight_hh self)) = hidden_size self \<and>
      ncols (data (weight_hh self)) = hidden_size self \<and>
      length (data (bias_hh self)) = hidden_size self)"

text \<open>Entry \<open>(i, j)\<close> of \<open>x @ transpose(w) + b\<close>.\<close>

definition affine :: "array2 \<Rightarrow> array2 \<Rightarrow> real list \<Rightarrow> nat \<Rightarrow> nat \<Rightarrow> real" where
  "affine x w b i j = (\<Sum>k<ncols x. rows x ! i ! k * rows w ! j ! k) + b ! j"

text \<open>
  The truth value of an object whose class defines neither \<^verbatim>\<open>__bool__\<close> nor
  \<^verbatim>\<open>__len__\<close>: always true.
\<close>

definition object_bool :: "array2 Tensor \<Rightarrow> bool" where
  "object_bool t = True"

text \<open>Concrete objects for the examples: a unit with one input and one hidden feature.\<close>

definition example_unit :: "string \<Rightarrow> RNNUnit" where
  "example_unit nonlinearity = RNNUnit_init (\<lambda>i j. 1) (\<lambda>i j. 1) 1 1 nonlinearity"

definition example_x :: "array2 Tensor" where
  "example_x = Tensor_init \<lparr>ncols = 1, rows = [[1], [2]]\<rparr> False False"

definition example_hidden :: "array2 Tensor" where
  "example_hidden = Tensor_init \<lparr>ncols = 1, rows = [[3], [4]]\<rparr> False False"

text \<open>
  The hidden state that iteration \<open>i\<close> passes to the unit, given the hidden states
  \<open>hs\<close> of the earlier iterations: \<^verbatim>\<open>hidden\<close> itself at \<open>i = 0\<close>, and after that
  \<^verbatim>\<open>hidden_states[i - 1][:X[i].shape[0]]\<close>.
\<close>

definition prev_hidden ::
  "array2 Tensor option \<Rightarrow> array2 Tensor list \<Rightarrow> array2 Tensor list \<Rightarrow> nat \<Rightarrow> array2 Tensor option" where
  "prev_hidden hidden X hs i =
     (if i = 0 then hidden else Some (getitem_slice (hs ! (i - 1)) 0 (shape0 (X ! i))))"

text \<open>
  \<open>exit_hidden\<close>: the last row of the hidden state of a timestep.
\<close>

definition exit_hidden :: "array2 Tensor \<Rightarrow> array2 Tensor" where
  "exit_hidden h =
     op_result \<lparr>ncols = ncols (data h), rows = [last (rows (data h))]\<rparr> (requires_grad h)"

text \<open>
  The variables of the loop once the iterations \<open>0, \<dots>, length hs - 1\<close> of \<open>n\<close> have
  produced the hidden states \<open>hs\<close>.
\<close>

definition state_after ::
  "array2 Tensor option \<Rightarrow> array2 Tensor list \<Rightarrow> array2 Tensor list \<Rightarrow> nat \<Rightarrow> loop_state" where
  "state_after hidden X hs n =
     \<lparr>hidden_states = map Filled hs @ replicate (n - length hs) Placeholder,
      hidden_step_per_batch = map exit_hidden hs,
      unit_calls = map (\<lambda>i. (X ! i, prev_hidden hidden X hs i)) [0..<length hs]\<rparr>"

text \<open>
  The invariant of a packed sequence (spec, data model): there is at least one timestep,
  every batch size is positive, the batch sizes are non-increasing, and they sum to the
  leading dimension of the data.
\<close>

definition wf_packed :: "PackedSequence \<Rightarrow> bool" where
  "wf_packed input =
     (ps_batch_sizes input \<noteq> [] \<and>
      list_all (\<lambda>b. 0 < b) (ps_batch_sizes input) \<and>
      sorted_wrt (\<lambda>a b. b \<le> a) (ps_batch_sizes input) \<and>
      sum_list (ps_batch_sizes input) = int (nrows (data (ps_data input))))"

text \<open>
  The initial hidden state fits the input: it is absent, or has one row for each sample
  of the first timestep.
\<close>

definition hidden0_fits :: "PackedSequence \<Rightarrow> array2 Tensor option \<Rightarrow> bool" where
  "hidden0_fits input hidden =
     (case hidden of
        None \<Rightarrow> True
      | Some h \<Rightarrow> ps_batch_sizes input \<noteq> [] \<and> int (nrows (data h)) = hd (ps_batch_sizes input))"

text \<open>
  A unit keeps the batch: called on \<open>B\<close> rows of input with no hidden state or a hidden
  state of \<open>B\<close> rows, what it returns has \<open>B\<close> rows.
\<close>

definition keeps_batch :: "unit_forward \<Rightarrow> bool" where
  "keeps_batch unit =
     (\<forall>x h y. unit x h = Inr y \<longrightarrow>
        (case h of None \<Rightarrow> True | Some h' \<Rightarrow> nrows (data h') = nrows (data x)) \<longrightarrow>
        nrows (data y) = nrows (data x))"

subsection \<open>The final hidden states, in the words of the spec\<close>

text \<open>The last timestep index at which the value \<open>v\<close> occurs in the batch sizes.\<close>

definition last_timestep :: "int list \<Rightarrow> int \<Rightarrow> nat" where
  "last_timestep bs v = last (filter (\<lambda>t. bs ! t = v) [0..<length bs])"

text \<open>
  One representative timestep for each distinct value of the batch sizes, sorted
  ascending and then reversed.
\<close>

definition final_order :: "int list \<Rightarrow> nat list" where
  "final_order bs = rev (sort (map (last_timestep bs) (remdups bs)))"

text \<open>
  The final hidden states: \<open>exit_hidden\<close> indexed in that order, concatenated along the
  batch dimension.
\<close>

definition final_hidden_spec :: "array2 Tensor list \<Rightarrow> int list \<Rightarrow> error + array2 Tensor" where
  "final_hidden_spec hs bs = cat (map (\<lambda>t. exit_hidden (hs ! t)) (final_order bs))"

text \<open>
  The length of the sequence of sample \<open>j\<close> (in sorted order): the number of timesteps
  at which the sample is still active, that is, at which \<open>j\<close> is below the batch size.
\<close>

definition seq_length :: "int list \<Rightarrow> nat \<Rightarrow> nat" where
  "seq_length bs j = length (filter (\<lambda>b. int j < b) bs)"

subsection \<open>Example inputs\<close>

text \<open>The example unit as the unit of a \<^verbatim>\<open>TimeIterator\<close>.\<close>

definition example_rnn :: "string \<Rightarrow> unit_forward" where
  "example_rnn nonlinearity = RNNUnit_as_unit object_bool (example_unit nonlinearity)"

text \<open>
  Three samples of lengths 4, 3 and 2 with one feature, packed: nine rows of data and
  the batch sizes 3, 3, 2, 1.
\<close>

definition example_data :: "array2 Tensor" where
  "example_data =
     Tensor_init \<lparr>ncols = 1, rows = [[1], [2], [3], [4], [5], [6], [7], [8], [9]]\<rparr> False False"

definition example_packed :: PackedSequence where
  "example_packed =
     \<lparr>ps_data = example_data, ps_sorted_indices = [0, 1, 2], ps_batch_sizes = [3, 3, 2, 1]\<rparr>"

text \<open>Two samples of length 1: a single timestep with batch size 2.\<close>

definition single_step_packed :: PackedSequence where
  "single_step_packed =
     \<lparr>ps_data = example_x, ps_sorted_indices = [0, 1], ps_batch_sizes = [2]\<rparr>"

text \<open>
  A malformed input: the batch sizes 1, 1 sum to 2, and the data has 3 rows.
\<close>

definition mismatched_packed :: PackedSequence where
  "mismatched_packed =
     \<lparr>ps_data = Tensor_init \<lparr>ncols = 1, rows = [[1], [2], [3]]\<rparr> False False,
      ps_sorted_indices = [0], ps_batch_sizes = [1, 1]\<rparr>"

text \<open>
  A malformed input: the batch sizes 2, 3, 1 increase and then decrease.
\<close>

definition nonmonotonic_packed :: PackedSequence where
  "nonmonotonic_packed =
     \<lparr>ps_data = Tensor_init \<lparr>ncols = 1, rows = [[1], [2], [3], [4], [5], [6]]\<rparr> False False,
      ps_sorted_indices = [0, 1, 2], ps_batch_sizes = [2, 3, 1]\<rparr>"

subsection \<open>The state of an optimizer before a step\<close>

text \<open>
  What \<^verbatim>\<open>SGD.step\<close> relies on: the parameters are distinct Tensor objects, there is
  one velocity for each parameter, every parameter has a gradient, and the value, the
  gradient (spec, data model: the gradient buffer matches the value shape) and the
  velocity (made by the constructor as \<^verbatim>\<open>np.zeros(t.shape)\<close>) of a parameter are
  arrays of one shape.
\<close>

definition param_ready :: "store \<Rightarrow> SGD \<Rightarrow> nat \<Rightarrow> bool" where
  "param_ready h self i =
     (case grad (h (params self ! i)) of
        None \<Rightarrow> False
      | Some g \<Rightarrow>
          wf_ndarray g \<and> wf_ndarray (data (h (params self ! i))) \<and>
          wf_ndarray (momentums self ! i) \<and>
          shape g = shape (data (h (params self ! i))) \<and>
          shape (momentums self ! i) = shape (data (h (params self ! i))))"

definition step_ready :: "store \<Rightarrow> SGD \<Rightarrow> bool" where
  "step_ready h self =
     (distinct (params self) \<and>
      length (momentums self) = length (params self) \<and>
      list_all (param_ready h self) [0..<length (params self)])"

text \<open>
  The velocity and the value of parameter \<open>i\<close> that a step is to produce:
  \<open>momentum * momentums[i] - lr * grad\<close>, and the old value plus that velocity.
\<close>

definition new_velocity :: "store \<Rightarrow> SGD \<Rightarrow> nat \<Rightarrow> ndarray" where
  "new_velocity h self i =
     \<lparr>shape = shape (data (h (params self ! i))),
      elems = map2 (\<lambda>m g. momentum self * m - lr self * g) (elems (momentums self ! i))
                (case grad (h (params self ! i)) of None \<Rightarrow> [] | Some g \<Rightarrow> elems g)\<rparr>"

definition new_data :: "store \<Rightarrow> SGD \<Rightarrow> nat \<Rightarrow> ndarray" where
  "new_data h self i =
     \<lparr>shape = shape (data (h (params self ! i))),
      elems = map2 (\<lambda>p v. p + v) (elems (data (h (params self ! i))))
                (elems (new_velocity h self i))\<rparr>"

text \<open>
  The state of the loop of \<^verbatim>\<open>step\<close> before iteration \<open>k\<close>, started from the store
  \<open>h0\<close> and the optimizer \<open>self0\<close>: the parameters below \<open>k\<close> are updated, the others
  and the rest of the store are untouched.
\<close>

definition step_inv :: "store \<Rightarrow> SGD \<Rightarrow> nat \<Rightarrow> store \<times> SGD \<Rightarrow> bool" where
  "step_inv h0 self0 k hs =
     (params (snd hs) = params self0 \<and> lr (snd hs) = lr self0 \<and>
      momentum (snd hs) = momentum self0 \<and>
      length (momentums (snd hs)) = length (params self0) \<and>
      (\<forall>i<length (params self0).
          momentums (snd hs) ! i = (if i < k then new_velocity h0 self0 i else momentums self0 ! i) \<and>
          fst hs (params self0 ! i) =
            (if i < k then (h0 (params self0 ! i))\<lparr>data := new_data h0 self0 i\<rparr>
             else h0 (params self0 ! i))) \<and>
      (\<forall>a. a \<notin> set (params self0) \<longrightarrow> fst hs a = h0 a))"

text \<open>Two parameters, of shapes \<open>(2, 2)\<close> and \<open>(2)\<close>, with their gradients.\<close>

definition example_store :: store where
  "example_store a =
     (if a = 0
      then \<lparr>data = \<lparr>shape = [2, 2], elems = [1, 2, 3, 4]\<rparr>,
            grad = Some \<lparr>shape = [2, 2], elems = [1, 1, 1, 1]\<rparr>,
            requires_grad = True, is_parameter = True\<rparr>
      else \<lparr>data = \<lparr>shape = [2], elems = [5, 6]\<rparr>,
            grad = Some \<lparr>shape = [2], elems = [2, 4]\<rparr>,
            requires_grad = True, is_parameter = True\<rparr>)"

text \<open>
  Two stores outside that state: in the first the second parameter has no gradient; in
  the second the gradient of the parameter, of shape \<open>(2, 2)\<close>, does not have the shape
  \<open>(2)\<close> of the value.
\<close>

definition store_without_grad :: store where
  "store_without_grad a =
     (if a = 0
      then \<lparr>data = \<lparr>shape = [2], elems = [1, 2]\<rparr>,
            grad = Some \<lparr>shape = [2], elems = [1, 1]\<rparr>,
            requires_grad = True, is_parameter = True\<rparr>
      else \<lparr>data = \<lparr>shape = [2], elems = [5, 6]\<rparr>,
            grad = None,
            requires_grad = True, is_parameter = True\<rparr>)"

definition store_wide_grad :: store where
  "store_wide_grad a =
     \<lparr>data = \<lparr>shape = [2], elems = [5, 6]\<rparr>,
      grad = Some \<lparr>shape = [2, 2], elems = [1, 2, 3, 4]\<rparr>,
      requires_grad = True, is_parameter = True\<rparr>"

section \<open>The recurrent unit\<close>

lemma broadcast_dim_same [simp]: "broadcast_dim n n = Some n"
  by (simp add: broadcast_dim_def)

lemma broadcast_dim_one [simp]: "broadcast_dim n (Suc 0) = Some n"
  by (simp add: broadcast_dim_def)

lemma affine_data:
  assumes "ncols (data x) = ncols (data w)" "length (data b) = nrows (data w)"
  shows "\<exists>xw y. Tensor_matmul x (Tensor_T w) = Inr xw \<and> Tensor_add_vec xw b = Inr y \<and>
     data y = \<lparr>ncols = nrows (data w),
       rows = map (\<lambda>i. map (\<lambda>j. affine (data x) (data w) (data b) i j) [0..<nrows (data w)]) [0..<nrows (data x)]\<rparr>"
  using assms
  apply (simp add: Tensor_matmul_def Tensor_T_def op_result_def matmul2_def transpose2_def nrows_def Tensor_add_vec_def add2_def as_row_def elem2_def affine_def)
  apply (auto simp: interv_sum_list_conv_sum_set_nat atLeast0LessThan intro!: nth_equalityI)
  done

lemma Tensor_add_same_shape:
  assumes "nrows (data a) = nrows (data b)" "ncols (data a) = ncols (data b)"
  shows "\<exists>y. Tensor_add a b = Inr y \<and>
     data y = \<lparr>ncols = ncols (data a),
        rows = map (\<lambda>i. map (\<lambda>j. rows (data a) ! i ! j + rows (data b) ! i ! j) [0..<ncols (data a)]) [0..<nrows (data a)]\<rparr>"
  using assms
  by (simp add: Tensor_add_def add2_def op_result_def elem2_def)

lemma weighted_sum_data:
  assumes ps: "param_shapes self (ncols (data x))"
    and h: "nrows (data h) = nrows (data x)" "ncols (data h) = hidden_size self"
  shows "\<exists>pre. weighted_sum self x h = Inr pre \<and>
     data pre = \<lparr>ncols = hidden_size self,
        rows = map (\<lambda>i. map (\<lambda>j. affine (data x) (data (weight_ih self)) (data (bias_ih self)) i j
                               + affine (data h) (data (weight_hh self)) (data (bias_hh self)) i j)
                        [0..<hidden_size self]) [0..<nrows (data x)]\<rparr>"
proof -
  from ps have s: "ncols (data x) = ncols (data (weight_ih self))"
      "length (data (bias_ih self)) = nrows (data (weight_ih self))"
      "ncols (data h) = ncols (data (weight_hh self))"
      "length (data (bias_hh self)) = nrows (data (weight_hh self))"
      "nrows (data (weight_ih self)) = hidden_size self"
      "nrows (data (weight_hh self)) = hidden_size self"
    using h by (simp_all add: param_shapes_def)
  obtain xw lhs where 1: "Tensor_matmul x (Tensor_T (weight_ih self)) = Inr xw"
     "Tensor_add_vec xw (bias_ih self) = Inr lhs"
     "data lhs = \<lparr>ncols = nrows (data (weight_ih self)),
       rows = map (\<lambda>i. map (\<lambda>j. affine (data x) (data (weight_ih self)) (data (bias_ih self)) i j) [0..<nrows (data (weight_ih self))]) [0..<nrows (data x)]\<rparr>"
    using affine_data [OF s(1) s(2)] by blast
  obtain hw rhs where 2: "Tensor_matmul h (Tensor_T (weight_hh self)) = Inr hw"
     "Tensor_add_vec hw (bias_hh self) = Inr rhs"
     "data rhs = \<lparr>ncols = nrows (data (weight_hh self)),
       rows = map (\<lambda>i. map (\<lambda>j. affine (data h) (data (weight_hh self)) (data (bias_hh self)) i j) [0..<nrows (data (weight_hh self))]) [0..<nrows (data h)]\<rparr>"
    using affine_data [OF s(3) s(4)] by blast
  have sh: "nrows (data lhs) = nrows (data rhs)" "ncols (data lhs) = ncols (data rhs)"
    using 1(3) 2(3) s h by (simp_all add: nrows_def)
  obtain y where 3: "Tensor_add lhs rhs = Inr y"
    "data y = \<lparr>ncols = ncols (data lhs),
        rows = map (\<lambda>i. map (\<lambda>j. rows (data lhs) ! i ! j + rows (data rhs) ! i ! j) [0..<ncols (data lhs)]) [0..<nrows (data lhs)]\<rparr>"
    using Tensor_add_same_shape [OF sh] by blast
  have "weighted_sum self x h = Inr y"
    by (simp add: weighted_sum_def 1 2 3)
  moreover have "data y = \<lparr>ncols = hidden_size self,
        rows = map (\<lambda>i. map (\<lambda>j. affine (data x) (data (weight_ih self)) (data (bias_ih self)) i j
                               + affine (data h) (data (weight_hh self)) (data (bias_hh self)) i j)
                        [0..<hidden_size self]) [0..<nrows (data x)]\<rparr>"
    using 3(2) 1(3) 2(3) s h by (simp add: nrows_def)
  ultimately show ?thesis by blast
qed

lemma param_shapes_init: "param_shapes (RNNUnit_init r1 r2 isz hsz nl) isz"
  by (simp add: param_shapes_def RNNUnit_init_def Tensor_init_def np_randn_def np_zeros_def nrows_def)

lemma resolve_hidden_shape:
  assumes "case hidden of None \<Rightarrow> True | Some h \<Rightarrow> nrows (data h) = nrows (data x) \<and> ncols (data h) = hidden_size self"
  shows "nrows (data (resolve_hidden tb self x hidden)) = nrows (data x) \<and>
         ncols (data (resolve_hidden tb self x hidden)) = hidden_size self"
  using assms
  by (auto simp: resolve_hidden_def Tensor_init_def np_zeros2_def nrows_def split: option.splits)

lemma weighted_sum_data_cong:
  assumes "data h = data h'"
  shows "map_sum id data (weighted_sum self x h) = map_sum id data (weighted_sum self x h')"
  using assms
  by (auto simp: weighted_sum_def Tensor_matmul_def Tensor_add_vec_def Tensor_add_def op_result_def
      split: sum.splits)

lemma weighted_sum_cong_flag:
  assumes "data h = data h'" "requires_grad (weight_hh self)"
  shows "weighted_sum self x h = weighted_sum self x h'"
  using assms
  by (auto simp: weighted_sum_def Tensor_matmul_def Tensor_add_vec_def Tensor_add_def op_result_def Tensor_T_def
      split: sum.splits)

lemma rect_apply_act_rows:
  assumes "data pre = \<lparr>ncols = c, rows = map (\<lambda>i. map (F i) [0..<c]) [0..<r]\<rparr>"
  shows "nrows (data (apply_act f pre)) = r \<and> ncols (data (apply_act f pre)) = c \<and>
         rect (data (apply_act f pre)) \<and>
         (\<forall>i<r. \<forall>j<c. rows (data (apply_act f pre)) ! i ! j = act_fun f (F i j))"
  using assms
  by (simp add: apply_act_def op_result_def nrows_def rect_def list_all_iff)

text \<open>
  C5: for an input \<open>x\<close> of shape \<open>[B, input_size]\<close> and a hidden state of shape
  \<open>[B, hidden_size]\<close>, \<^verbatim>\<open>RNNUnit.forward\<close> returns the activation applied to
  \<open>(x @ transpose(weight_ih) + bias_ih) + (hidden @ transpose(weight_hh) + bias_hh)\<close>,
  a tensor of shape \<open>[B, hidden_size]\<close>.  The hidden state is one that Python counts as
  true (or the batch is empty, where the zero tensor that replaces it has the same value).
\<close>

theorem C5_forward_formula:
  assumes shapes: "param_shapes self input_size"
    and x: "nrows (data x) = B" "ncols (data x) = input_size"
    and h: "nrows (data hidden) = B" "ncols (data hidden) = hidden_size self"
    and truth: "tensor_bool hidden \<or> B = 0"
    and a: "act self = Some f"
  shows "\<exists>pre y. weighted_sum self x hidden = Inr pre \<and>
           RNNUnit_forward tensor_bool self (IsTensor x) (Some hidden) = Inr y \<and>
           data y = data (apply_act f pre) \<and>
           nrows (data y) = B \<and> ncols (data y) = hidden_size self \<and> rect (data y) \<and>
           (\<forall>i<B. \<forall>j<hidden_size self.
              rows (data y) ! i ! j =
                act_fun f (affine (data x) (data (weight_ih self)) (data (bias_ih self)) i j +
                           affine (data hidden) (data (weight_hh self)) (data (bias_hh self)) i j))"
proof -
  let ?F = "\<lambda>h i j. affine (data x) (data (weight_ih self)) (data (bias_ih self)) i j +
                   affine (data h) (data (weight_hh self)) (data (bias_hh self)) i j"
  let ?r = "resolve_hidden tensor_bool self x (Some hidden)"
  have ps: "param_shapes self (ncols (data x))"
    using shapes x by simp
  have dr: "data ?r = data hidden"
  proof (cases "tensor_bool hidden")
    case True
    then show ?thesis by (simp add: resolve_hidden_def)
  next
    case False
    with truth have "B = 0" by simp
    with x h have "rows (data hidden) = []" "nrows (data x) = 0"
      by (simp_all add: nrows_def)
    with h show ?thesis
      using False by (simp add: resolve_hidden_def Tensor_init_def np_zeros2_def)
  qed
  have hx: "nrows (data hidden) = nrows (data x)"
    using x h by simp
  obtain pre where pre: "weighted_sum self x hidden = Inr pre"
    "data pre = \<lparr>ncols = hidden_size self,
        rows = map (\<lambda>i. map (?F hidden i) [0..<hidden_size self]) [0..<nrows (data x)]\<rparr>"
    using weighted_sum_data [OF ps hx h(2)] by blast
  have "nrows (data ?r) = nrows (data x)" "ncols (data ?r) = hidden_size self"
    using dr hx h by simp_all
  from weighted_sum_data [OF ps this]
  obtain pre' where pre': "weighted_sum self x ?r = Inr pre'"
    "data pre' = \<lparr>ncols = hidden_size self,
        rows = map (\<lambda>i. map (?F ?r i) [0..<hidden_size self]) [0..<nrows (data x)]\<rparr>"
    by blast
  have same: "data pre' = data pre"
    using pre(2) pre'(2) dr by simp
  have fw: "RNNUnit_forward tensor_bool self (IsTensor x) (Some hidden) = Inr (apply_act f pre')"
    by (simp add: RNNUnit_forward_def pre'(1) a)
  have dy: "data (apply_act f pre') = data (apply_act f pre)"
    using same by (simp add: apply_act_def op_result_def)
  have props: "nrows (data (apply_act f pre)) = nrows (data x) \<and>
         ncols (data (apply_act f pre)) = hidden_size self \<and>
         rect (data (apply_act f pre)) \<and>
         (\<forall>i<nrows (data x). \<forall>j<hidden_size self.
             rows (data (apply_act f pre)) ! i ! j = act_fun f (?F hidden i j))"
    by (rule rect_apply_act_rows [OF pre(2)])
  show ?thesis
    using pre(1) fw dy props x(1) by auto
qed

theorem C5_forward_formula_witness:
  "param_shapes (example_unit ''relu'') 1 \<and>
   nrows (data example_x) = 2 \<and> ncols (data example_x) = 1 \<and>
   nrows (data example_hidden) = 2 \<and>
   ncols (data example_hidden) = hidden_size (example_unit ''relu'') \<and>
   (object_bool example_hidden \<or> (2::nat) = 0) \<and>
   act (example_unit ''relu'') = Some ReLU \<and>
   (\<exists>y. RNNUnit_forward object_bool (example_unit ''relu'') (IsTensor example_x)
          (Some example_hidden) = Inr y \<and>
        nrows (data y) = 2 \<and> ncols (data y) = 1 \<and> rows (data y) ! 1 ! 0 = 6)"
proof -
  have ps: "param_shapes (example_unit ''relu'') 1"
    unfolding example_unit_def by (rule param_shapes_init)
  have x: "nrows (data example_x) = 2" "ncols (data example_x) = 1"
    by (simp_all add: example_x_def Tensor_init_def nrows_def)
  have h: "nrows (data example_hidden) = 2"
    "ncols (data example_hidden) = hidden_size (example_unit ''relu'')"
    by (simp_all add: example_hidden_def example_unit_def RNNUnit_init_def Tensor_init_def nrows_def)
  have t: "object_bool example_hidden \<or> (2::nat) = 0"
    by (simp add: object_bool_def)
  have a: "act (example_unit ''relu'') = Some ReLU"
    by (simp add: example_unit_def RNNUnit_init_def)
  have hs: "hidden_size (example_unit ''relu'') = 1"
    by (simp add: example_unit_def RNNUnit_init_def)
  have v: "act_fun ReLU
      (affine (data example_x) (data (weight_ih (example_unit ''relu'')))
         (data (bias_ih (example_unit ''relu''))) 1 0 +
       affine (data example_hidden) (data (weight_hh (example_unit ''relu'')))
         (data (bias_hh (example_unit ''relu''))) 1 0) = 6"
    by (simp add: affine_def example_x_def example_hidden_def example_unit_def RNNUnit_init_def
        Tensor_init_def np_randn_def np_zeros_def)
  from C5_forward_formula [where tensor_bool = object_bool, OF ps x h t a]
  obtain y where "RNNUnit_forward object_bool (example_unit ''relu'') (IsTensor example_x)
          (Some example_hidden) = Inr y" "nrows (data y) = 2"
     "ncols (data y) = hidden_size (example_unit ''relu'')"
     "\<forall>i<2. \<forall>j<hidden_size (example_unit ''relu''). rows (data y) ! i ! j =
        act_fun ReLU
          (affine (data example_x) (data (weight_ih (example_unit ''relu'')))
             (data (bias_ih (example_unit ''relu''))) i j +
           affine (data example_hidden) (data (weight_hh (example_unit ''relu'')))
             (data (bias_hh (example_unit ''relu''))) i j)"
    by blast
  then have "RNNUnit_forward object_bool (example_unit ''relu'') (IsTensor example_x)
          (Some example_hidden) = Inr y \<and>
        nrows (data y) = 2 \<and> ncols (data y) = 1 \<and> rows (data y) ! 1 ! 0 = 6"
    using hs v by simp
  then show ?thesis
    using ps x h t a by blast
qed

text \<open>
  C6: calling \<^verbatim>\<open>RNNUnit.forward\<close> with \<^verbatim>\<open>hidden = None\<close> gives the same value as
  calling it with an explicit all-zero tensor of shape \<open>[B, hidden_size]\<close> (whatever the
  flags of that tensor; the returned tensors are equal as a whole when the
  hidden-to-hidden weight requires gradients, as every constructed unit's does), and the
  zero tensor made for \<^verbatim>\<open>None\<close> requires gradients and is flagged as a parameter.
\<close>

theorem C6_zero_hidden_default:
  "resolve_hidden tensor_bool self x None =
     Tensor_init (np_zeros2 (nrows (data x), hidden_size self)) True True \<and>
   requires_grad (resolve_hidden tensor_bool self x None) \<and>
   is_parameter (resolve_hidden tensor_bool self x None) \<and>
   map_sum id data (RNNUnit_forward tensor_bool self (IsTensor x) None) =
   map_sum id data (RNNUnit_forward tensor_bool self (IsTensor x)
      (Some \<lparr>data = np_zeros2 (nrows (data x), hidden_size self), grad = g,
             requires_grad = rg, is_parameter = ip\<rparr>)) \<and>
   (requires_grad (weight_hh self) \<longrightarrow>
      RNNUnit_forward tensor_bool self (IsTensor x) None =
      RNNUnit_forward tensor_bool self (IsTensor x)
        (Some \<lparr>data = np_zeros2 (nrows (data x), hidden_size self), grad = g,
               requires_grad = rg, is_parameter = ip\<rparr>))"
proof -
  let ?z = "\<lparr>data = np_zeros2 (nrows (data x), hidden_size self), grad = g,
             requires_grad = rg, is_parameter = ip\<rparr>"
  let ?n = "resolve_hidden tensor_bool self x None"
  let ?s = "resolve_hidden tensor_bool self x (Some ?z)"
  have n: "?n = Tensor_init (np_zeros2 (nrows (data x), hidden_size self)) True True"
    by (simp add: resolve_hidden_def)
  have d: "data ?n = data ?s"
    by (simp add: resolve_hidden_def Tensor_init_def)
  have 1: "map_sum id data (RNNUnit_forward tensor_bool self (IsTensor x) None) =
           map_sum id data (RNNUnit_forward tensor_bool self (IsTensor x) (Some ?z))"
    using weighted_sum_data_cong [OF d, of self x]
    by (auto simp: RNNUnit_forward_def apply_act_def op_result_def split: sum.splits option.splits)
  have 2: "RNNUnit_forward tensor_bool self (IsTensor x) None =
           RNNUnit_forward tensor_bool self (IsTensor x) (Some ?z)"
    if "requires_grad (weight_hh self)"
    using weighted_sum_cong_flag [OF d that, of x]
    by (simp add: RNNUnit_forward_def)
  show ?thesis
    using n 1 2 by (simp add: Tensor_init_def)
qed

theorem C6_zero_hidden_default_witness:
  "requires_grad (weight_hh (example_unit ''relu'')) \<and>
   RNNUnit_forward object_bool (example_unit ''relu'') (IsTensor example_x) None =
   RNNUnit_forward object_bool (example_unit ''relu'') (IsTensor example_x)
     (Some \<lparr>data = np_zeros2 (nrows (data example_x), hidden_size (example_unit ''relu'')),
            grad = None, requires_grad = False, is_parameter = False\<rparr>) \<and>
   RNNUnit_forward object_bool (example_unit ''relu'') (IsTensor example_x) None =
   Inr \<lparr>data = \<lparr>ncols = 1, rows = [[1], [2]]\<rparr>, grad = None, requires_grad = True,
        is_parameter = False\<rparr>"
proof -
  have rg: "requires_grad (weight_hh (example_unit ''relu''))"
    by (simp add: example_unit_def RNNUnit_init_def Tensor_init_def)
  have v: "RNNUnit_forward object_bool (example_unit ''relu'') (IsTensor example_x) None =
     Inr \<lparr>data = \<lparr>ncols = 1, rows = [[1], [2]]\<rparr>, grad = None, requires_grad = True,
          is_parameter = False\<rparr>"
    by (simp add: RNNUnit_forward_def weighted_sum_def resolve_hidden_def example_unit_def
        example_x_def RNNUnit_init_def Tensor_init_def op_result_def np_zeros_def np_zeros2_def
        np_randn_def nrows_def transpose2_def matmul2_def broadcast_dim_def elem2_def add2_def
        as_row_def Tensor_T_def Tensor_matmul_def Tensor_add_def Tensor_add_vec_def apply_act_def
        upt_rec)
  from C6_zero_hidden_default [of object_bool "example_unit ''relu''" example_x None False False]
  show ?thesis
    using rg v by simp
qed

text \<open>
  C8: for a nonlinearity string other than \<^verbatim>\<open>"tanh"\<close> and \<^verbatim>\<open>"relu"\<close>, the
  constructor returns a unit with no activation set; no call of \<^verbatim>\<open>forward\<close> on that
  unit returns, and a call with well-shaped arguments fails with the AttributeError of
  line 79.
\<close>

theorem C8_unrecognized_nonlinearity:
  assumes "nonlinearity \<noteq> ''tanh''" and "nonlinearity \<noteq> ''relu''"
  shows "act (RNNUnit_init rnd_ih rnd_hh input_size hidden_sz nonlinearity) = None \<and>
         (\<forall>x hidden y. RNNUnit_forward tensor_bool
              (RNNUnit_init rnd_ih rnd_hh input_size hidden_sz nonlinearity) x hidden \<noteq> Inr y) \<and>
         (\<forall>x hidden. ncols (data x) = input_size \<longrightarrow>
              (case hidden of None \<Rightarrow> True
               | Some h \<Rightarrow> nrows (data h) = nrows (data x) \<and> ncols (data h) = hidden_sz) \<longrightarrow>
              RNNUnit_forward tensor_bool
                (RNNUnit_init rnd_ih rnd_hh input_size hidden_sz nonlinearity) (IsTensor x) hidden
              = Inl AttributeError)"
proof -
  let ?u = "RNNUnit_init rnd_ih rnd_hh input_size hidden_sz nonlinearity"
  have a: "act ?u = None" and hs: "hidden_size ?u = hidden_sz"
    using assms by (simp_all add: RNNUnit_init_def)
  have never: "RNNUnit_forward tensor_bool ?u x hidden \<noteq> Inr y" for x hidden y
    by (simp add: RNNUnit_forward_def a split: pyarg.splits sum.splits)
  have attr: "RNNUnit_forward tensor_bool ?u (IsTensor x) hidden = Inl AttributeError"
    if x: "ncols (data x) = input_size"
      and h: "case hidden of None \<Rightarrow> True
               | Some h \<Rightarrow> nrows (data h) = nrows (data x) \<and> ncols (data h) = hidden_sz"
    for x hidden
  proof -
    have h': "case hidden of None \<Rightarrow> True
               | Some h \<Rightarrow> nrows (data h) = nrows (data x) \<and> ncols (data h) = hidden_size ?u"
      using h by (simp add: hs split: option.splits)
    have sh: "nrows (data (resolve_hidden tensor_bool ?u x hidden)) = nrows (data x)"
             "ncols (data (resolve_hidden tensor_bool ?u x hidden)) = hidden_size ?u"
      by (rule resolve_hidden_shape [OF h', THEN conjunct1],
          rule resolve_hidden_shape [OF h', THEN conjunct2])
    have "param_shapes ?u (ncols (data x))"
      using param_shapes_init [of rnd_ih rnd_hh input_size hidden_sz nonlinearity] x by simp
    from weighted_sum_data [OF this sh]
    obtain pre where "weighted_sum ?u x (resolve_hidden tensor_bool ?u x hidden) = Inr pre"
      by blast
    then show ?thesis
      by (simp add: RNNUnit_forward_def a)
  qed
  from a never attr show ?thesis by blast
qed

theorem C8_unrecognized_nonlinearity_witness:
  "''sigmoid'' \<noteq> ''tanh'' \<and> ''sigmoid'' \<noteq> ''relu'' \<and>
   act (example_unit ''sigmoid'') = None \<and>
   RNNUnit_forward object_bool (example_unit ''sigmoid'') (IsTensor example_x) None
     = Inl AttributeError"
proof -
  have n: "''sigmoid'' \<noteq> ''tanh''" "''sigmoid'' \<noteq> ''relu''"
    by simp_all
  have x: "ncols (data example_x) = 1"
    by (simp add: example_x_def Tensor_init_def)
  from C8_unrecognized_nonlinearity [OF n, of "\<lambda>i j. 1" "\<lambda>i j. 1" 1 1 object_bool]
  show ?thesis
    using n x unfolding example_unit_def by force
qed

section \<open>The time iterator\<close>

lemma length_segments [simp]: "length (segments d start bs) = length bs"
  by (induction bs arbitrary: start) (simp_all add: Let_def)

lemma segments_nth:
  "t < length bs \<Longrightarrow>
   segments d start bs ! t =
     getitem_slice d (start + sum_list (take t bs)) (start + sum_list (take (Suc t) bs))"
proof (induction bs arbitrary: start t)
  case Nil
  then show ?case by simp
next
  case (Cons b bs)
  show ?case
  proof (cases t)
    case 0
    then show ?thesis by (simp add: Let_def)
  next
    case (Suc t')
    with Cons.prems have "t' < length bs" by simp
    from Cons.IH [OF this, of "start + b"] Suc show ?thesis
      by (simp add: Let_def add.assoc)
  qed
qed

lemma py_slice_take_drop:
  assumes "0 \<le> s" "s \<le> e" "e \<le> int (length xs)"
  shows "py_slice xs s e = take (nat (e - s)) (drop (nat s) xs)"
  using assms by (simp add: py_slice_def slice_bound_def Let_def min_def)

lemma py_slice_prefix:
  assumes "0 \<le> n"
  shows "py_slice xs 0 n = take (nat n) xs"
  using assms by (auto simp add: py_slice_def slice_bound_def Let_def min_def)

lemma sum_list_take_le:
  assumes "list_all (\<lambda>b. 0 \<le> b) (bs :: int list)"
  shows "sum_list (take t bs) \<le> sum_list bs" "0 \<le> sum_list (take t bs)"
proof -
  have nn: "0 \<le> sum_list (drop t bs)" "0 \<le> sum_list (take t bs)"
    using assms
    by (auto intro!: sum_list_nonneg simp: list_all_iff dest: in_set_dropD in_set_takeD)
  have "sum_list bs = sum_list (take t bs) + sum_list (drop t bs)"
    by (metis append_take_drop_id sum_list_append)
  with nn show "sum_list (take t bs) \<le> sum_list bs" "0 \<le> sum_list (take t bs)"
    by simp_all
qed

lemma segments_rows:
  assumes nn: "list_all (\<lambda>b. 0 \<le> b) bs"
    and le: "sum_list bs \<le> int (nrows (data d))"
    and t: "t < length bs"
  shows "rows (data (segments d 0 bs ! t)) =
           take (nat (bs ! t)) (drop (nat (sum_list (take t bs))) (rows (data d)))"
    and "shape0 (segments d 0 bs ! t) = bs ! t"
proof -
  let ?s = "sum_list (take t bs)" and ?e = "sum_list (take (Suc t) bs)"
  have e: "?e = ?s + bs ! t"
    using t by (simp add: take_Suc_conv_app_nth)
  have b: "0 \<le> bs ! t"
    using nn t by (simp add: list_all_length)
  have s0: "0 \<le> ?s" and en: "?e \<le> int (length (rows (data d)))"
    using sum_list_take_le [OF nn] le by (auto simp: nrows_def intro: order_trans)
  have se: "?s \<le> ?e" using e b by simp
  have r: "rows (data (segments d 0 bs ! t)) = py_slice (rows (data d)) ?s ?e"
    using segments_nth [OF t, of d 0] by (simp add: getitem_slice_def op_result_def)
  show 1: "rows (data (segments d 0 bs ! t)) =
           take (nat (bs ! t)) (drop (nat ?s) (rows (data d)))"
    using r py_slice_take_drop [OF s0 se en] e by simp
  have "nat ?s + nat (bs ! t) \<le> length (rows (data d))"
    using en e s0 b by linarith
  then show "shape0 (segments d 0 bs ! t) = bs ! t"
    using 1 b by (simp add: shape0_def nrows_def)
qed

lemma getitem_last_row_exit:
  "getitem_last_row y = (if rows (data y) = [] then Inl IndexError else Inr (exit_hidden y))"
  by (simp add: getitem_last_row_def exit_hidden_def)

lemma prev_hidden_append:
  "i \<le> length hs \<Longrightarrow> prev_hidden hidden X (hs @ ys) i = prev_hidden hidden X hs i"
  by (simp add: prev_hidden_def nth_append)

lemma h_previous_filled:
  "h_previous X hidden (length hs) (map Filled hs @ ss) = Inr (prev_hidden hidden X hs (length hs))"
  by (cases "length hs") (auto simp: h_previous_def prev_hidden_def nth_append Let_def)

lemma state_after_step:
  assumes "length hs < n"
  shows "\<lparr>hidden_states = (hidden_states (state_after hidden X hs n))[length hs := Filled y],
          hidden_step_per_batch = hidden_step_per_batch (state_after hidden X hs n) @ [exit_hidden y],
          unit_calls = unit_calls (state_after hidden X hs n) @ [(X ! length hs, prev_hidden hidden X hs (length hs))]\<rparr>
         = state_after hidden X (hs @ [y]) n"
proof -
  from assms obtain m where m: "n - length hs = Suc m" "n - Suc (length hs) = m"
    by (metis Suc_diff_Suc)
  have 1: "(map Filled hs @ replicate (n - length hs) Placeholder)[length hs := Filled y]
        = map Filled (hs @ [y]) @ replicate (n - length (hs @ [y])) Placeholder"
    using m by (simp add: list_update_append)
  have 2: "map (\<lambda>i. (X ! i, prev_hidden hidden X hs i)) [0..<length hs] @
             [(X ! length hs, prev_hidden hidden X hs (length hs))]
        = map (\<lambda>i. (X ! i, prev_hidden hidden X (hs @ [y]) i)) [0..<length (hs @ [y])]"
    by (simp add: prev_hidden_append)
  show ?thesis
    unfolding state_after_def using 1 2 by simp
qed

lemma loop_body_state_after:
  assumes "length hs < n"
  shows "loop_body unit X hidden (length hs) (state_after hidden X hs n) =
     (case unit (X ! length hs) (prev_hidden hidden X hs (length hs)) of
        Inl e \<Rightarrow> Inl e
      | Inr y \<Rightarrow> if rows (data y) = [] then Inl IndexError
                 else Inr (state_after hidden X (hs @ [y]) n))"
proof -
  have hp: "h_previous X hidden (length hs) (hidden_states (state_after hidden X hs n))
            = Inr (prev_hidden hidden X hs (length hs))"
    by (simp add: state_after_def h_previous_filled)
  show ?thesis
    unfolding loop_body_def hp
    by (simp add: getitem_last_row_exit state_after_step [OF assms] split: sum.splits)
qed

lemma run_loop_sound:
  assumes "run_loop unit X hidden [length hs..<n] (state_after hidden X hs n) = Inr st"
    and "length hs \<le> n"
  shows "\<exists>hs'. length hs' = n \<and> st = state_after hidden X hs' n \<and> take (length hs) hs' = hs \<and>
           (\<forall>i. length hs \<le> i \<and> i < n \<longrightarrow>
              unit (X ! i) (prev_hidden hidden X hs' i) = Inr (hs' ! i) \<and> rows (data (hs' ! i)) \<noteq> [])"
  using assms
proof (induction "n - length hs" arbitrary: hs)
  case 0
  then have "length hs = n" by simp
  with "0.prems" show ?case by auto
next
  case (Suc m)
  then have lt: "length hs < n" by simp
  then have up: "[length hs..<n] = length hs # [Suc (length hs)..<n]"
    by (simp add: upt_rec)
  from Suc.prems(1) obtain y where
    y: "unit (X ! length hs) (prev_hidden hidden X hs (length hs)) = Inr y" "rows (data y) \<noteq> []"
    and rest: "run_loop unit X hidden [length (hs @ [y])..<n] (state_after hidden X (hs @ [y]) n) = Inr st"
    unfolding up by (auto simp: loop_body_state_after [OF lt] split: sum.splits if_splits)
  have m: "m = n - length (hs @ [y])" using Suc.hyps(2) by simp
  have le: "length (hs @ [y]) \<le> n" using lt by simp
  from Suc.hyps(1) [OF m rest le]
  obtain hs' where hs': "length hs' = n" "st = state_after hidden X hs' n"
     "take (length (hs @ [y])) hs' = hs @ [y]"
     "\<forall>i. length (hs @ [y]) \<le> i \<and> i < n \<longrightarrow>
         unit (X ! i) (prev_hidden hidden X hs' i) = Inr (hs' ! i) \<and> rows (data (hs' ! i)) \<noteq> []"
    by blast
  have split: "hs' = (hs @ [y]) @ drop (Suc (length hs)) hs'"
    using hs'(3) by (metis append_take_drop_id length_append_singleton)
  have tk: "take (length hs) hs' = hs"
    by (subst split) simp
  have nth: "hs' ! length hs = y"
    by (subst split) (simp add: nth_append)
  have pv: "prev_hidden hidden X hs' (length hs) = prev_hidden hidden X hs (length hs)"
    by (subst split) (simp add: prev_hidden_append)
  have "unit (X ! i) (prev_hidden hidden X hs' i) = Inr (hs' ! i) \<and> rows (data (hs' ! i)) \<noteq> []"
    if "length hs \<le> i \<and> i < n" for i
  proof (cases "i = length hs")
    case True
    then show ?thesis using y nth pv by simp
  next
    case False
    with that have "length (hs @ [y]) \<le> i \<and> i < n" by simp
    with hs'(4) show ?thesis by blast
  qed
  with hs'(1,2) tk show ?case by blast
qed

lemma recurrence_sound:
  assumes "recurrence unit X hidden = Inr st"
  shows "\<exists>hs. length hs = length X \<and> st = state_after hidden X hs (length X) \<and>
           (\<forall>i<length X. unit (X ! i) (prev_hidden hidden X hs i) = Inr (hs ! i) \<and>
                          rows (data (hs ! i)) \<noteq> [])"
proof -
  have init: "\<lparr>hidden_states = map (\<lambda>x. Placeholder) X, hidden_step_per_batch = [], unit_calls = []\<rparr>
       = state_after hidden X [] (length X)"
    by (simp add: state_after_def map_replicate_const)
  from assms have "run_loop unit X hidden [length ([] :: array2 Tensor list)..<length X]
       (state_after hidden X [] (length X)) = Inr st"
    unfolding recurrence_def init by simp
  from run_loop_sound [OF this] show ?thesis by auto
qed

lemma filter_positions_Cons:
  "filter (\<lambda>t. (b # bs) ! t = v) [0..<length (b # bs)] =
     (if b = v then [0] else []) @ map Suc (filter (\<lambda>t. bs ! t = v) [0..<length bs])"
proof -
  have "[0..<length (b # bs)] = 0 # map Suc [0..<length bs]"
    by (simp add: upt_conv_Cons map_Suc_upt del: upt_Suc)
  then show ?thesis
    by (simp add: filter_map o_def)
qed

lemma positions_nonempty:
  "v \<in> set bs \<Longrightarrow> filter (\<lambda>t. bs ! t = v) [0..<length bs] \<noteq> []"
  by (auto simp: filter_empty_conv in_set_conv_nth)

lemma last_timestep_Cons_in:
  "v \<in> set bs \<Longrightarrow> last_timestep (b # bs) v = Suc (last_timestep bs v)"
  unfolding last_timestep_def filter_positions_Cons
  by (simp add: positions_nonempty last_map)

lemma last_timestep_Cons_notin:
  "v \<notin> set bs \<Longrightarrow> last_timestep (v # bs) v = 0"
proof -
  assume "v \<notin> set bs"
  then have "filter (\<lambda>t. bs ! t = v) [0..<length bs] = []"
    by (auto simp: filter_empty_conv)
  then show ?thesis
    unfolding last_timestep_def filter_positions_Cons by simp
qed

lemma record_indices_keys:
  "set bs \<subseteq> set (map fst d) \<Longrightarrow> map fst (record_indices bs i d) = map fst d"
proof (induction bs arbitrary: i d)
  case Nil
  then show ?case by simp
next
  case (Cons key bs)
  then have k: "map fst (AList.update key (Some i) d) = map fst d"
    by (simp add: update_keys)
  with Cons.prems have "set bs \<subseteq> set (map fst (AList.update key (Some i) d))"
    by simp
  from Cons.IH [OF this, of "Suc i"] k show ?case by simp
qed

lemma record_indices_lookup:
  "map_of (record_indices bs i d) k =
     (if k \<in> set bs then Some (Some (i + last_timestep bs k)) else map_of d k)"
proof (induction bs arbitrary: i d)
  case Nil
  then show ?case by simp
next
  case (Cons key bs)
  show ?case
  proof (cases "k \<in> set bs")
    case True
    then show ?thesis
      by (simp add: Cons.IH last_timestep_Cons_in)
  next
    case False
    then show ?thesis
      by (auto simp: Cons.IH update_conv' last_timestep_Cons_notin)
  qed
qed

lemma values_by_keys:
  "distinct (map fst al) \<Longrightarrow> map snd al = map (\<lambda>k. the (map_of al k)) (map fst al)"
proof (induction al)
  case Nil
  then show ?case by simp
next
  case (Cons p al)
  have "the (map_of (p # al) k) = the (map_of al k)" if "k \<in> set (map fst al)" for k
  proof -
    from that Cons.prems have "k \<noteq> fst p" by (auto simp: image_iff)
    then show ?thesis by (cases p) simp
  qed
  then have "map (\<lambda>k. the (map_of (p # al) k)) (map fst al) = map (\<lambda>k. the (map_of al k)) (map fst al)"
    by (rule map_cong [OF refl])
  moreover have "the (map_of (p # al) (fst p)) = snd p"
    by (cases p) simp
  moreover have "map snd al = map (\<lambda>k. the (map_of al k)) (map fst al)"
    using Cons by simp
  ultimately show ?case by simp
qed

lemma batch_size_sample_count_values:
  "map snd (batch_size_sample_count bs) = map (\<lambda>v. Some (last_timestep bs v)) (remdups bs)"
proof -
  let ?init = "map (\<lambda>x. (x, None :: nat option)) (remdups bs)"
  have keys0: "map fst ?init = remdups bs"
    by (simp add: o_def)
  have keys: "map fst (batch_size_sample_count bs) = remdups bs"
    unfolding batch_size_sample_count_def
    using record_indices_keys [of bs ?init 0] keys0 by simp
  then have "distinct (map fst (batch_size_sample_count bs))"
    by simp
  from values_by_keys [OF this]
  have "map snd (batch_size_sample_count bs) =
        map (\<lambda>k. the (map_of (batch_size_sample_count bs) k)) (remdups bs)"
    using keys by simp
  also have "\<dots> = map (\<lambda>v. Some (last_timestep bs v)) (remdups bs)"
    by (intro map_cong) (simp_all add: batch_size_sample_count_def record_indices_lookup)
  finally show ?thesis .
qed

lemma target_hidden_step_indices_eq:
  "target_hidden_step_indices bs = Inr (sort (map (last_timestep bs) (remdups bs)))"
  by (auto simp: target_hidden_step_indices_def batch_size_sample_count_values
      list_ex_iff o_def Let_def)

lemma last_timestep_props:
  assumes "v \<in> set bs"
  shows "last_timestep bs v < length bs" "bs ! last_timestep bs v = v"
    "\<forall>t. last_timestep bs v < t \<and> t < length bs \<longrightarrow> bs ! t \<noteq> v"
proof -
  let ?F = "filter (\<lambda>t. bs ! t = v) [0..<length bs]"
  have ne: "?F \<noteq> []" using assms by (rule positions_nonempty)
  then have "last ?F \<in> set ?F" by (rule last_in_set)
  then show "last_timestep bs v < length bs" "bs ! last_timestep bs v = v"
    by (simp_all add: last_timestep_def)
  have srt: "sorted ?F" by (simp add: sorted_wrt_filter)
  show "\<forall>t. last_timestep bs v < t \<and> t < length bs \<longrightarrow> bs ! t \<noteq> v"
  proof (intro allI impI notI)
    fix t assume t: "last_timestep bs v < t \<and> t < length bs" and "bs ! t = v"
    then have "t \<in> set ?F" by simp
    then obtain i where i: "i < length ?F" "?F ! i = t" by (metis in_set_conv_nth)
    then have "?F ! i \<le> ?F ! (length ?F - 1)"
      using srt by (intro sorted_nth_mono) auto
    then have "t \<le> last ?F"
      using i ne by (simp add: last_conv_nth)
    with t show False by (simp add: last_timestep_def)
  qed
qed

lemma select_steps_eq:
  "list_all (\<lambda>i. i < length hspb) is \<Longrightarrow> select_steps hspb is = Inr (map (\<lambda>i. hspb ! i) is)"
  by (induction "is") simp_all

lemma filled_map_Filled [simp]: "filled (map Filled hs) = Inr hs"
  by (induction hs) simp_all

lemma select_steps_Inr:
  "select_steps hspb is = Inr ts \<Longrightarrow> ts = map (\<lambda>i. hspb ! i) is"
  by (induction "is" arbitrary: ts) (auto split: if_splits sum.splits)

lemma final_order_in_range:
  "list_all (\<lambda>t. t < length bs) (final_order bs)"
  by (simp add: final_order_def list_all_iff last_timestep_props(1))

lemma length_final_order: "length (final_order bs) = length (remdups bs)"
  by (simp add: final_order_def)

lemma final_order_nonempty: "bs \<noteq> [] \<Longrightarrow> final_order bs \<noteq> []"
proof
  assume "bs \<noteq> []" and "final_order bs = []"
  then have "remdups bs = []"
    using length_final_order [of bs] by simp
  then have "set bs = {}"
    by (metis set_remdups set_empty)
  with \<open>bs \<noteq> []\<close> show False by simp
qed

lemma state_after_full:
  "length hs = n \<Longrightarrow>
   hidden_states (state_after hidden X hs n) = map Filled hs \<and>
   hidden_step_per_batch (state_after hidden X hs n) = map exit_hidden hs \<and>
   unit_calls (state_after hidden X hs n) = map (\<lambda>i. (X ! i, prev_hidden hidden X hs i)) [0..<n]"
  by (simp add: state_after_def)

lemma selected_final:
  assumes "length hs = length bs"
  shows "rev (map (\<lambda>i. map exit_hidden hs ! i) (sort (map (last_timestep bs) (remdups bs))))
         = map (\<lambda>t. exit_hidden (hs ! t)) (final_order bs)"
proof -
  have "map (\<lambda>i. map exit_hidden hs ! i) (final_order bs) = map (\<lambda>t. exit_hidden (hs ! t)) (final_order bs)"
    using final_order_in_range [of bs] assms
    by (intro map_cong) (auto simp: list_all_iff)
  then show ?thesis
    by (simp add: final_order_def rev_map)
qed

lemma forward_sound:
  assumes fw: "TimeIterator_forward unit input hidden = Inr (ps, fh)"
  shows "\<exists>hs. length hs = length (ps_batch_sizes input) \<and>
           recurrence unit (segments (ps_data input) 0 (ps_batch_sizes input)) hidden =
             Inr (state_after hidden (segments (ps_data input) 0 (ps_batch_sizes input)) hs
                    (length (ps_batch_sizes input))) \<and>
           (\<forall>i<length (ps_batch_sizes input).
               unit (segments (ps_data input) 0 (ps_batch_sizes input) ! i)
                    (prev_hidden hidden (segments (ps_data input) 0 (ps_batch_sizes input)) hs i)
                 = Inr (hs ! i) \<and> rows (data (hs ! i)) \<noteq> []) \<and>
           cat hs = Inr (ps_data ps) \<and>
           ps_sorted_indices ps = ps_sorted_indices input \<and>
           ps_batch_sizes ps = ps_batch_sizes input \<and>
           final_hidden_spec hs (ps_batch_sizes input) = Inr fh"
proof -
  let ?bs = "ps_batch_sizes input"
  let ?X = "segments (ps_data input) 0 ?bs"
  from fw obtain st where st: "recurrence unit ?X hidden = Inr st"
    by (auto simp: TimeIterator_forward_def Let_def split: sum.splits)
  from recurrence_sound [OF st]
  obtain hs where hs: "length hs = length ?bs" "st = state_after hidden ?X hs (length ?bs)"
    "\<forall>i<length ?bs. unit (?X ! i) (prev_hidden hidden ?X hs i) = Inr (hs ! i) \<and>
                          rows (data (hs ! i)) \<noteq> []"
    by auto
  note full = state_after_full [OF hs(1), of hidden ?X]
  from fw st obtain selected out where
    sel: "select_steps (hidden_step_per_batch st) (sort (map (last_timestep ?bs) (remdups ?bs))) = Inr selected"
    and out: "cat hs = Inr out"
    and fin: "cat (rev selected) = Inr fh"
    and ps: "ps = \<lparr>ps_data = out, ps_sorted_indices = ps_sorted_indices input, ps_batch_sizes = ?bs\<rparr>"
    using full unfolding hs(2)
    by (auto simp: TimeIterator_forward_def Let_def target_hidden_step_indices_eq split: sum.splits)
  from select_steps_Inr [OF sel]
  have "rev selected = map (\<lambda>t. exit_hidden (hs ! t)) (final_order ?bs)"
    using selected_final [OF hs(1)] full by (simp add: hs(2))
  with fin have "final_hidden_spec hs ?bs = Inr fh"
    by (simp add: final_hidden_spec_def)
  with hs st out ps show ?thesis
    by auto
qed

lemma forward_complete:
  assumes rec: "recurrence unit (segments (ps_data input) 0 (ps_batch_sizes input)) hidden =
             Inr (state_after hidden (segments (ps_data input) 0 (ps_batch_sizes input)) hs
                    (length (ps_batch_sizes input)))"
    and len: "length hs = length (ps_batch_sizes input)"
    and out: "cat hs = Inr out"
    and fin: "final_hidden_spec hs (ps_batch_sizes input) = Inr fh"
  shows "TimeIterator_forward unit input hidden =
           Inr (\<lparr>ps_data = out, ps_sorted_indices = ps_sorted_indices input,
                 ps_batch_sizes = ps_batch_sizes input\<rparr>, fh)"
proof -
  let ?bs = "ps_batch_sizes input"
  let ?X = "segments (ps_data input) 0 ?bs"
  note full = state_after_full [OF len, of hidden ?X]
  have "list_all (\<lambda>i. i < length (map exit_hidden hs)) (sort (map (last_timestep ?bs) (remdups ?bs)))"
    using final_order_in_range [of ?bs] len by (simp add: final_order_def list_all_iff)
  from select_steps_eq [OF this]
  have sel: "select_steps (map exit_hidden hs) (sort (map (last_timestep ?bs) (remdups ?bs)))
     = Inr (map (\<lambda>i. map exit_hidden hs ! i) (sort (map (last_timestep ?bs) (remdups ?bs))))" .
  have fin': "cat (rev (map (\<lambda>i. map exit_hidden hs ! i) (sort (map (last_timestep ?bs) (remdups ?bs))))) = Inr fh"
    using fin selected_final [OF len] by (simp add: final_hidden_spec_def)
  show ?thesis
    unfolding TimeIterator_forward_def Let_def rec
    by (simp add: full target_hidden_step_indices_eq sel fin' out)
qed

lemma cat_Inr_rows:
  "cat ts = Inr y \<Longrightarrow> rows (data y) = concat (map (\<lambda>u. rows (data u)) ts)"
  by (auto simp: cat_def op_result_def split: list.splits if_splits)

lemma cat_succeeds:
  assumes "ts \<noteq> []" "list_all (\<lambda>u. ncols (data u) = c) ts"
  shows "\<exists>y. cat ts = Inr y"
  using assms by (cases ts) (auto simp: cat_def list_all_iff)

lemma getitem_slice_prefix_rows:
  "0 \<le> n \<Longrightarrow> rows (data (getitem_slice h 0 n)) = take (nat n) (rows (data h))"
  by (simp add: getitem_slice_def op_result_def py_slice_prefix)

lemma nonincreasing_nth:
  assumes "sorted_wrt (\<lambda>a b. b \<le> a) (bs :: int list)" "i \<le> j" "j < length bs"
  shows "bs ! j \<le> bs ! i"
  using assms by (cases "i = j") (auto simp: sorted_wrt_iff_nth_less)

lemma hidden_rows_count:
  assumes wf: "wf_packed input"
    and fits: "hidden0_fits input hidden"
    and keeps: "keeps_batch unit"
    and len: "length hs = length (ps_batch_sizes input)"
    and steps: "\<forall>i<length (ps_batch_sizes input).
               unit (segments (ps_data input) 0 (ps_batch_sizes input) ! i)
                    (prev_hidden hidden (segments (ps_data input) 0 (ps_batch_sizes input)) hs i)
                 = Inr (hs ! i) \<and> rows (data (hs ! i)) \<noteq> []"
    and t: "t < length (ps_batch_sizes input)"
  shows "nrows (data (hs ! t)) = nat (ps_batch_sizes input ! t)"
  using t
proof (induction t)
  case 0
  let ?bs = "ps_batch_sizes input"
  let ?X = "segments (ps_data input) 0 ?bs"
  have nn: "list_all (\<lambda>b. 0 \<le> b) ?bs"
    using wf by (auto simp: wf_packed_def list_all_iff intro: less_imp_le)
  have le: "sum_list ?bs \<le> int (nrows (data (ps_data input)))"
    using wf by (simp add: wf_packed_def)
  have x: "shape0 (?X ! 0) = ?bs ! 0"
    using segments_rows(2) [OF nn le 0] .
  then have nx: "nrows (data (?X ! 0)) = nat (?bs ! 0)"
    by (simp add: shape0_def)
  have u: "unit (?X ! 0) hidden = Inr (hs ! 0)"
    using steps 0 by (auto simp: prev_hidden_def)
  have "case hidden of None \<Rightarrow> True | Some h' \<Rightarrow> nrows (data h') = nrows (data (?X ! 0))"
    using fits nx 0 by (auto simp: hidden0_fits_def hd_conv_nth split: option.splits)
  with keeps u have "nrows (data (hs ! 0)) = nrows (data (?X ! 0))"
    unfolding keeps_batch_def by blast
  with nx show ?case by simp
next
  case (Suc t)
  let ?bs = "ps_batch_sizes input"
  let ?X = "segments (ps_data input) 0 ?bs"
  have nn: "list_all (\<lambda>b. 0 \<le> b) ?bs"
    using wf by (auto simp: wf_packed_def list_all_iff intro: less_imp_le)
  have le: "sum_list ?bs \<le> int (nrows (data (ps_data input)))"
    using wf by (simp add: wf_packed_def)
  have x: "shape0 (?X ! Suc t) = ?bs ! Suc t"
    using segments_rows(2) [OF nn le Suc.prems] .
  then have nx: "nrows (data (?X ! Suc t)) = nat (?bs ! Suc t)"
    by (simp add: shape0_def)
  have b0: "0 \<le> ?bs ! Suc t"
    using nn Suc.prems by (simp add: list_all_length)
  have mono: "?bs ! Suc t \<le> ?bs ! t"
    using wf Suc.prems by (intro nonincreasing_nth) (simp_all add: wf_packed_def)
  have IH: "nrows (data (hs ! t)) = nat (?bs ! t)"
    using Suc by simp
  let ?p = "getitem_slice (hs ! t) 0 (shape0 (?X ! Suc t))"
  have u: "unit (?X ! Suc t) (Some ?p) = Inr (hs ! Suc t)"
    using steps Suc.prems by (auto simp: prev_hidden_def)
  have "nrows (data ?p) = nrows (data (?X ! Suc t))"
    using IH mono b0 nx by (simp add: x getitem_slice_prefix_rows nrows_def)
  with keeps u have "nrows (data (hs ! Suc t)) = nrows (data (?X ! Suc t))"
    unfolding keeps_batch_def by force
  with nx show ?case by simp
qed

lemma filter_prefix:
  assumes "k \<le> length xs" "\<forall>i<k. P (xs ! i)" "\<forall>i. k \<le> i \<and> i < length xs \<longrightarrow> \<not> P (xs ! i)"
  shows "filter P xs = take k xs"
proof -
  have 1: "filter P (take k xs) = take k xs"
    using assms(1,2) by (auto simp: filter_id_conv in_set_conv_nth)
  have 2: "filter P (drop k xs) = []"
    using assms(3) by (auto simp: filter_empty_conv in_set_conv_nth)
  have "filter P xs = filter P (take k xs @ drop k xs)" by simp
  also have "\<dots> = take k xs" unfolding filter_append 1 2 by simp
  finally show ?thesis .
qed

lemma seq_length_of_exit:
  assumes pos: "list_all (\<lambda>b. 0 < b) bs"
    and mono: "sorted_wrt (\<lambda>a b. b \<le> a) bs"
    and t: "t \<in> set (final_order bs)"
  shows "t < length bs \<and> seq_length bs (nat (bs ! t) - 1) = Suc t"
proof -
  from t obtain v where v: "v \<in> set bs" "t = last_timestep bs v"
    by (auto simp: final_order_def)
  note p = last_timestep_props [OF v(1), folded v(2)]
  have vpos: "0 < v" using pos v(1) by (simp add: list_all_iff)
  have P: "int (nat (bs ! t) - 1) < b \<longleftrightarrow> v \<le> b" for b
    using vpos p(2) by auto
  have before: "\<forall>i<Suc t. v \<le> bs ! i"
    using nonincreasing_nth [OF mono _ p(1)] p(2) by auto
  have after: "\<forall>i. Suc t \<le> i \<and> i < length bs \<longrightarrow> \<not> v \<le> bs ! i"
  proof (intro allI impI)
    fix i assume i: "Suc t \<le> i \<and> i < length bs"
    then have "bs ! i \<le> bs ! t"
      using nonincreasing_nth [OF mono, of t i] by simp
    moreover have "bs ! i \<noteq> v" using p(3) i by simp
    ultimately show "\<not> v \<le> bs ! i" using p(2) by simp
  qed
  have "filter (\<lambda>b. v \<le> b) bs = take (Suc t) bs"
    using filter_prefix [of "Suc t" bs "\<lambda>b. v \<le> b"] before after p(1) by simp
  moreover have "filter (\<lambda>b. int (nat (bs ! t) - 1) < b) bs = filter (\<lambda>b. v \<le> b) bs"
    by (rule filter_cong [OF refl]) (simp only: P)
  ultimately have "seq_length bs (nat (bs ! t) - 1) = Suc t"
    using p(1) unfolding seq_length_def by simp
  with p(1) show ?thesis by simp
qed

lemma final_order_strict: "sorted_wrt (\<lambda>a b. b < a) (final_order bs)"
proof -
  have inj: "inj_on (last_timestep bs) (set (remdups bs))"
    by (rule inj_onI) (metis last_timestep_props(2) set_remdups)
  have "distinct (map (last_timestep bs) (remdups bs))"
    using inj by (simp add: distinct_map)
  then have "sorted_wrt (<) (sort (map (last_timestep bs) (remdups bs)))"
    by (simp add: strict_sorted_iff)
  then show ?thesis
    by (simp add: final_order_def sorted_wrt_rev)
qed

lemma final_lengths_descending:
  assumes pos: "list_all (\<lambda>b. 0 < b) bs"
    and mono: "sorted_wrt (\<lambda>a b. b \<le> a) bs"
  shows "sorted_wrt (\<lambda>a b. b < a) (map (\<lambda>t. seq_length bs (nat (bs ! t) - 1)) (final_order bs))"
proof -
  have "map (\<lambda>t. seq_length bs (nat (bs ! t) - 1)) (final_order bs) = map Suc (final_order bs)"
    using seq_length_of_exit [OF pos mono] by (intro map_cong) auto
  moreover have "sorted_wrt (\<lambda>a b. b < a) (map Suc (final_order bs))"
    using final_order_strict [of bs] by (simp add: sorted_wrt_map)
  ultimately show ?thesis
    by (simp only:)
qed

lemma final_hidden_rows:
  assumes "final_hidden_spec hs bs = Inr fh"
  shows "rows (data fh) = map (\<lambda>t. last (rows (data (hs ! t)))) (final_order bs)"
  using cat_Inr_rows [OF assms [unfolded final_hidden_spec_def]]
  by (simp add: exit_hidden_def op_result_def o_def)

lemma matmul2_nrows: "matmul2 a b = Inr c \<Longrightarrow> nrows c = nrows a"
  by (auto simp: matmul2_def nrows_def split: if_splits)

lemma add2_nrows:
  "add2 a b = Inr c \<Longrightarrow> broadcast_dim (nrows a) (nrows b) = Some (nrows c)"
  by (auto simp: add2_def nrows_def split: option.splits)

lemma weighted_sum_nrows:
  assumes "weighted_sum self x h = Inr pre" "nrows (data h) = nrows (data x)"
  shows "nrows (data pre) = nrows (data x)"
proof -
  from assms(1) obtain xw lhs hw rhs where
    1: "matmul2 (data x) (data (Tensor_T (weight_ih self))) = Inr xw"
    and 2: "add2 xw (as_row (data (bias_ih self))) = Inr lhs"
    and 3: "matmul2 (data h) (data (Tensor_T (weight_hh self))) = Inr hw"
    and 4: "add2 hw (as_row (data (bias_hh self))) = Inr rhs"
    and 5: "add2 lhs rhs = Inr (data pre)"
    by (auto simp: weighted_sum_def Tensor_matmul_def Tensor_add_vec_def Tensor_add_def
        op_result_def split: sum.splits)
  have one: "nrows (as_row v) = 1" for v by (simp add: as_row_def nrows_def)
  have l: "nrows lhs = nrows (data x)"
    using add2_nrows [OF 2] matmul2_nrows [OF 1] by (simp add: one)
  have r: "nrows rhs = nrows (data x)"
    using add2_nrows [OF 4] matmul2_nrows [OF 3] assms(2) by (simp add: one)
  from add2_nrows [OF 5] l r show ?thesis by simp
qed

lemma RNNUnit_keeps_batch: "keeps_batch (RNNUnit_as_unit tensor_bool u)"
  unfolding keeps_batch_def
proof (intro allI impI)
  fix x h y
  assume fw: "RNNUnit_as_unit tensor_bool u x h = Inr y"
    and h: "case h of None \<Rightarrow> True | Some h' \<Rightarrow> nrows (data h') = nrows (data x)"
  let ?r = "resolve_hidden tensor_bool u x h"
  have r: "nrows (data ?r) = nrows (data x)"
    using h by (auto simp: resolve_hidden_def Tensor_init_def np_zeros2_def nrows_def
        split: option.splits)
  from fw obtain pre f where pre: "weighted_sum u x ?r = Inr pre" and y: "y = apply_act f pre"
    by (auto simp: RNNUnit_as_unit_def RNNUnit_forward_def split: sum.splits option.splits)
  have "nrows (data y) = nrows (data pre)"
    by (simp add: y apply_act_def op_result_def nrows_def)
  with weighted_sum_nrows [OF pre r] show "nrows (data y) = nrows (data x)" by simp
qed

lemma prev_hidden_take:
  "i \<le> k \<Longrightarrow> k \<le> length hs \<Longrightarrow> prev_hidden hidden X (take k hs) i = prev_hidden hidden X hs i"
  by (simp add: prev_hidden_def)

lemma run_loop_complete:
  assumes "length hs = n" "k \<le> n"
    and "\<forall>i<n. unit (X ! i) (prev_hidden hidden X hs i) = Inr (hs ! i) \<and> rows (data (hs ! i)) \<noteq> []"
  shows "run_loop unit X hidden [k..<n] (state_after hidden X (take k hs) n)
         = Inr (state_after hidden X hs n)"
  using assms(2)
proof (induction "n - k" arbitrary: k)
  case 0
  then show ?case using assms(1) by simp
next
  case (Suc m)
  then have lt: "k < n" by simp
  then have up: "[k..<n] = k # [Suc k..<n]" by (simp add: upt_rec)
  have lk: "length (take k hs) = k" using lt assms(1) by simp
  have tk: "take k hs @ [hs ! k] = take (Suc k) hs"
    using lt assms(1) by (simp add: take_Suc_conv_app_nth)
  have u: "unit (X ! k) (prev_hidden hidden X (take k hs) k) = Inr (hs ! k)" "rows (data (hs ! k)) \<noteq> []"
    using assms(3) lt assms(1) by (simp_all add: prev_hidden_take)
  have body: "loop_body unit X hidden k (state_after hidden X (take k hs) n)
        = Inr (state_after hidden X (take (Suc k) hs) n)"
    using loop_body_state_after [of "take k hs" n unit X hidden] lt u tk
    unfolding lk by simp
  have "run_loop unit X hidden [Suc k..<n] (state_after hidden X (take (Suc k) hs) n)
         = Inr (state_after hidden X hs n)"
    using Suc.hyps(1) [of "Suc k"] Suc.hyps(2) lt by simp
  then show ?case
    unfolding up by (simp add: body)
qed

lemma recurrence_complete:
  assumes "length hs = length X"
    and "\<forall>i<length X. unit (X ! i) (prev_hidden hidden X hs i) = Inr (hs ! i) \<and> rows (data (hs ! i)) \<noteq> []"
  shows "recurrence unit X hidden = Inr (state_after hidden X hs (length X))"
proof -
  have init: "\<lparr>hidden_states = map (\<lambda>x. Placeholder) X, hidden_step_per_batch = [], unit_calls = []\<rparr>
       = state_after hidden X (take 0 hs) (length X)"
    by (simp add: state_after_def map_replicate_const)
  show ?thesis
    unfolding recurrence_def init
    by (rule run_loop_complete [OF assms(1) _ assms(2)]) simp
qed

lemma recurrence_first_call_fails:
  assumes "X \<noteq> []" "unit (X ! 0) hidden = Inl e"
  shows "recurrence unit X hidden = Inl e"
proof -
  from assms(1) have up: "[0..<length X] = 0 # [Suc 0..<length X]"
    by (simp add: upt_rec)
  show ?thesis
    unfolding recurrence_def up
    by (simp add: loop_body_def h_previous_def assms(2))
qed

lemmas eval_defs = TimeIterator_forward_def RNNUnit_as_unit_def RNNUnit_forward_def
  weighted_sum_def resolve_hidden_def RNNUnit_init_def Tensor_init_def op_result_def np_zeros_def np_zeros2_def
  np_randn_def slice_bound_def py_slice_def getitem_slice_def getitem_last_row_def shape0_def nrows_def
  transpose2_def matmul2_def broadcast_dim_def elem2_def add2_def as_row_def Tensor_T_def Tensor_matmul_def
  Tensor_add_def Tensor_add_vec_def cat_def apply_act_def recurrence_def loop_body_def h_previous_def
  batch_size_sample_count_def target_hidden_step_indices_def Let_def upt_rec
  example_rnn_def example_unit_def object_bool_def example_data_def example_x_def

lemma example_packed_forward:
  "TimeIterator_forward (example_rnn ''relu'') example_packed None =
     Inr (\<lparr>ps_data = \<lparr>data = \<lparr>ncols = 1,
                rows = [[1], [2], [3], [5], [7], [9], [12], [15], [21]]\<rparr>,
              grad = None, requires_grad = True, is_parameter = False\<rparr>,
            ps_sorted_indices = [0, 1, 2], ps_batch_sizes = [3, 3, 2, 1]\<rparr>,
          \<lparr>data = \<lparr>ncols = 1, rows = [[21], [15], [9]]\<rparr>, grad = None,
            requires_grad = True, is_parameter = False\<rparr>)"
  by (simp add: eval_defs example_packed_def)

lemma single_step_forward:
  "TimeIterator_forward (example_rnn ''relu'') single_step_packed None =
     Inr (\<lparr>ps_data = \<lparr>data = \<lparr>ncols = 1, rows = [[1], [2]]\<rparr>,
              grad = None, requires_grad = True, is_parameter = False\<rparr>,
            ps_sorted_indices = [0, 1], ps_batch_sizes = [2]\<rparr>,
          \<lparr>data = \<lparr>ncols = 1, rows = [[2]]\<rparr>, grad = None,
            requires_grad = True, is_parameter = False\<rparr>)"
  by (simp add: eval_defs single_step_packed_def)

lemma mismatched_forward:
  "TimeIterator_forward (example_rnn ''relu'') mismatched_packed None =
     Inr (\<lparr>ps_data = \<lparr>data = \<lparr>ncols = 1, rows = [[1], [3]]\<rparr>,
              grad = None, requires_grad = True, is_parameter = False\<rparr>,
            ps_sorted_indices = [0], ps_batch_sizes = [1, 1]\<rparr>,
          \<lparr>data = \<lparr>ncols = 1, rows = [[3]]\<rparr>, grad = None,
            requires_grad = True, is_parameter = False\<rparr>)"
  by (simp add: eval_defs mismatched_packed_def)

text \<open>
  C9: whenever \<^verbatim>\<open>TimeIterator.forward\<close> returns, the packed sequence it returns carries
  the \<open>sorted_indices\<close> and \<open>batch_sizes\<close> of the input, and its data is the
  concatenation, in timestep order, of the hidden states of all timesteps.
\<close>

theorem C9_packed_output:
  assumes "TimeIterator_forward unit input hidden = Inr (ps, fh)"
  shows "ps_sorted_indices ps = ps_sorted_indices input \<and>
         ps_batch_sizes ps = ps_batch_sizes input \<and>
         (\<exists>st hs. recurrence unit (segments (ps_data input) 0 (ps_batch_sizes input)) hidden = Inr st \<and>
            hidden_states st = map Filled hs \<and>
            length hs = length (ps_batch_sizes input) \<and>
            cat hs = Inr (ps_data ps) \<and>
            rows (data (ps_data ps)) = concat (map (\<lambda>h. rows (data h)) hs))"
proof -
  let ?bs = "ps_batch_sizes input"
  let ?X = "segments (ps_data input) 0 ?bs"
  from forward_sound [OF assms]
  obtain hs where hs: "length hs = length ?bs"
    "recurrence unit ?X hidden = Inr (state_after hidden ?X hs (length ?bs))"
    "cat hs = Inr (ps_data ps)"
    "ps_sorted_indices ps = ps_sorted_indices input"
    "ps_batch_sizes ps = ?bs"
    by blast
  have "hidden_states (state_after hidden ?X hs (length ?bs)) = map Filled hs"
    using state_after_full [OF hs(1)] by blast
  moreover have "rows (data (ps_data ps)) = concat (map (\<lambda>h. rows (data h)) hs)"
    using cat_Inr_rows [OF hs(3)] .
  ultimately show ?thesis
    using hs by blast
qed

text \<open>
  C1: for batch sizes that are not negative and do not exceed the data, at every timestep
  \<open>t > 0\<close> the unit is called on the segment of the timestep and on
  \<^verbatim>\<open>hidden_states[t - 1][:batch_sizes[t]]\<close>, whose rows are the first \<open>batch_sizes[t]\<close>
  rows of \<^verbatim>\<open>hidden_states[t - 1]\<close>, in order; what that call returns is
  \<^verbatim>\<open>hidden_states[t]\<close>.  For a well-formed packed input and a unit that keeps the
  batch, these are exactly \<open>batch_sizes[t]\<close> rows.
\<close>

theorem C1_truncated_previous_hidden:
  assumes fw: "TimeIterator_forward unit input hidden = Inr (ps, fh)"
    and nn: "list_all (\<lambda>b. 0 \<le> b) (ps_batch_sizes input)"
    and le: "sum_list (ps_batch_sizes input) \<le> int (nrows (data (ps_data input)))"
    and t: "0 < t" "t < length (ps_batch_sizes input)"
  shows "\<exists>st h y. recurrence unit (segments (ps_data input) 0 (ps_batch_sizes input)) hidden = Inr st \<and>
           hidden_states st ! (t - 1) = Filled h \<and>
           unit_calls st ! t =
             (segments (ps_data input) 0 (ps_batch_sizes input) ! t,
              Some (getitem_slice h 0 (ps_batch_sizes input ! t))) \<and>
           unit (segments (ps_data input) 0 (ps_batch_sizes input) ! t)
                (Some (getitem_slice h 0 (ps_batch_sizes input ! t))) = Inr y \<and>
           hidden_states st ! t = Filled y \<and>
           rows (data (getitem_slice h 0 (ps_batch_sizes input ! t))) =
             take (nat (ps_batch_sizes input ! t)) (rows (data h)) \<and>
           (wf_packed input \<and> hidden0_fits input hidden \<and> keeps_batch unit \<longrightarrow>
              nrows (data (getitem_slice h 0 (ps_batch_sizes input ! t))) =
                nat (ps_batch_sizes input ! t))"
proof -
  let ?bs = "ps_batch_sizes input"
  let ?X = "segments (ps_data input) 0 ?bs"
  from forward_sound [OF fw]
  obtain hs where hs: "length hs = length ?bs"
    "recurrence unit ?X hidden = Inr (state_after hidden ?X hs (length ?bs))"
    "\<forall>i<length ?bs. unit (?X ! i) (prev_hidden hidden ?X hs i) = Inr (hs ! i) \<and>
        rows (data (hs ! i)) \<noteq> []"
    by blast
  let ?st = "state_after hidden ?X hs (length ?bs)"
  let ?h = "hs ! (t - 1)"
  note full = state_after_full [OF hs(1), of hidden ?X]
  have b0: "0 \<le> ?bs ! t"
    using nn t(2) by (simp add: list_all_length)
  have sh: "shape0 (?X ! t) = ?bs ! t"
    using segments_rows(2) [OF nn le t(2)] .
  have pv: "prev_hidden hidden ?X hs t = Some (getitem_slice ?h 0 (?bs ! t))"
    using t by (simp add: prev_hidden_def sh)
  have 1: "hidden_states ?st ! (t - 1) = Filled ?h"
    using full t hs(1) by simp
  have 2: "unit_calls ?st ! t = (?X ! t, Some (getitem_slice ?h 0 (?bs ! t)))"
    using full t by (simp add: pv)
  have "unit (?X ! t) (prev_hidden hidden ?X hs t) = Inr (hs ! t)"
    using hs(3) t(2) by blast
  then have call: "unit (?X ! t) (Some (getitem_slice ?h 0 (?bs ! t))) = Inr (hs ! t)"
    unfolding pv .
  have stored: "hidden_states ?st ! t = Filled (hs ! t)"
    using full t hs(1) by simp
  have 3: "rows (data (getitem_slice ?h 0 (?bs ! t))) = take (nat (?bs ! t)) (rows (data ?h))"
    using b0 by (rule getitem_slice_prefix_rows)
  have 4: "nrows (data (getitem_slice ?h 0 (?bs ! t))) = nat (?bs ! t)"
    if wf: "wf_packed input" and fits: "hidden0_fits input hidden" and keeps: "keeps_batch unit"
  proof -
    have "t - 1 < length ?bs" using t by simp
    from hidden_rows_count [OF wf fits keeps hs(1) hs(3) this]
    have "nrows (data ?h) = nat (?bs ! (t - 1))" .
    moreover have "?bs ! t \<le> ?bs ! (t - 1)"
      using wf t by (intro nonincreasing_nth) (simp_all add: wf_packed_def)
    ultimately show ?thesis
      using 3 b0 by (simp add: nrows_def)
  qed
  from hs(2) 1 2 call stored 3 4 show ?thesis by blast
qed

text \<open>
  C2: the final hidden tensor returned by \<^verbatim>\<open>TimeIterator.forward\<close> is the one the
  spec describes: the last rows of the hidden states, taken at the last timestep of each
  distinct batch size, these timesteps sorted ascending and reversed, concatenated.  For
  a well-formed packed input and a unit that keeps the batch, the last row of timestep
  \<open>t\<close> is row \<open>batch_sizes[t] - 1\<close>, it belongs to a sample whose sequence has length
  \<open>t + 1\<close>, and the sequence lengths of the rows are strictly descending.
\<close>

theorem C2_final_hidden:
  assumes fw: "TimeIterator_forward unit input hidden = Inr (ps, fh)"
  shows "\<exists>st hs. recurrence unit (segments (ps_data input) 0 (ps_batch_sizes input)) hidden = Inr st \<and>
           hidden_states st = map Filled hs \<and>
           length hs = length (ps_batch_sizes input) \<and>
           hidden_step_per_batch st = map exit_hidden hs \<and>
           final_hidden_spec hs (ps_batch_sizes input) = Inr fh \<and>
           rows (data fh) =
             map (\<lambda>t. last (rows (data (hs ! t)))) (final_order (ps_batch_sizes input)) \<and>
           (wf_packed input \<and> hidden0_fits input hidden \<and> keeps_batch unit \<longrightarrow>
              (\<forall>t<length (ps_batch_sizes input).
                  nrows (data (hs ! t)) = nat (ps_batch_sizes input ! t) \<and>
                  last (rows (data (hs ! t))) =
                    rows (data (hs ! t)) ! (nat (ps_batch_sizes input ! t) - 1)) \<and>
              (\<forall>t\<in>set (final_order (ps_batch_sizes input)).
                  seq_length (ps_batch_sizes input) (nat (ps_batch_sizes input ! t) - 1) = Suc t) \<and>
              sorted_wrt (\<lambda>a b. b < a)
                (map (\<lambda>t. seq_length (ps_batch_sizes input) (nat (ps_batch_sizes input ! t) - 1))
                   (final_order (ps_batch_sizes input))))"
proof -
  let ?bs = "ps_batch_sizes input"
  let ?X = "segments (ps_data input) 0 ?bs"
  from forward_sound [OF fw]
  obtain hs where hs: "length hs = length ?bs"
    "recurrence unit ?X hidden = Inr (state_after hidden ?X hs (length ?bs))"
    "\<forall>i<length ?bs. unit (?X ! i) (prev_hidden hidden ?X hs i) = Inr (hs ! i) \<and>
        rows (data (hs ! i)) \<noteq> []"
    "final_hidden_spec hs ?bs = Inr fh"
    by blast
  let ?st = "state_after hidden ?X hs (length ?bs)"
  note full = state_after_full [OF hs(1), of hidden ?X]
  have rows_fh: "rows (data fh) = map (\<lambda>t. last (rows (data (hs ! t)))) (final_order ?bs)"
    using final_hidden_rows [OF hs(4)] .
  have wfpart: "(\<forall>t<length ?bs. nrows (data (hs ! t)) = nat (?bs ! t) \<and>
                  last (rows (data (hs ! t))) = rows (data (hs ! t)) ! (nat (?bs ! t) - 1)) \<and>
              (\<forall>t\<in>set (final_order ?bs). seq_length ?bs (nat (?bs ! t) - 1) = Suc t) \<and>
              sorted_wrt (\<lambda>a b. b < a)
                (map (\<lambda>t. seq_length ?bs (nat (?bs ! t) - 1)) (final_order ?bs))"
    if wf: "wf_packed input" and fits: "hidden0_fits input hidden" and keeps: "keeps_batch unit"
  proof -
    have pos: "list_all (\<lambda>b. 0 < b) ?bs" and mono: "sorted_wrt (\<lambda>a b. b \<le> a) ?bs"
      using wf by (simp_all add: wf_packed_def)
    have a: "nrows (data (hs ! t)) = nat (?bs ! t) \<and>
             last (rows (data (hs ! t))) = rows (data (hs ! t)) ! (nat (?bs ! t) - 1)"
      if "t < length ?bs" for t
    proof -
      have n: "nrows (data (hs ! t)) = nat (?bs ! t)"
        using hidden_rows_count [OF wf fits keeps hs(1) hs(3) that] .
      have "rows (data (hs ! t)) \<noteq> []" using hs(3) that by simp
      then have "last (rows (data (hs ! t))) = rows (data (hs ! t)) ! (length (rows (data (hs ! t))) - 1)"
        by (rule last_conv_nth)
      with n show ?thesis by (simp add: nrows_def)
    qed
    have b: "\<forall>t\<in>set (final_order ?bs). seq_length ?bs (nat (?bs ! t) - 1) = Suc t"
      using seq_length_of_exit [OF pos mono] by blast
    have c: "sorted_wrt (\<lambda>a b. b < a)
                (map (\<lambda>t. seq_length ?bs (nat (?bs ! t) - 1)) (final_order ?bs))"
      using final_lengths_descending [OF pos mono] .
    from a b c show ?thesis by blast
  qed
  have "recurrence unit ?X hidden = Inr ?st \<and> hidden_states ?st = map Filled hs \<and>
        length hs = length ?bs \<and> hidden_step_per_batch ?st = map exit_hidden hs"
    using hs(1,2) full by simp
  with hs(4) rows_fh wfpart show ?thesis by blast
qed

lemma final_order_example: "final_order [3, 3, 2, 1] = [3, 2, 1]"
  by (simp add: final_order_def last_timestep_def upt_rec)

lemma list4:
  assumes "length hs = 4"
  shows "hs = [hs ! 0, hs ! 1, hs ! 2, hs ! 3]"
  using assms by (auto simp: list_eq_iff_nth_eq nth_Cons' less_Suc_eq numeral_eq_Suc)

lemma last_nth_length: "length xs = Suc n \<Longrightarrow> last xs = xs ! n"
  by (cases xs rule: rev_cases) (simp_all add: nth_append)

text \<open>
  C3: for an input with batch sizes 3, 3, 2, 1 and nine rows of data (three
  samples, of lengths 4, 3 and 2), the packed data returned has nine rows and the final
  hidden tensor has three rows: row 0 of the hidden state of timestep 3, row 1 of that
  of timestep 2 and row 2 of that of timestep 1, in descending order of sequence length.
\<close>

theorem C3_example_batch:
  assumes fw: "TimeIterator_forward unit input hidden = Inr (ps, fh)"
    and bs: "ps_batch_sizes input = [3, 3, 2, 1]"
    and nine: "nrows (data (ps_data input)) = 9"
    and fits: "hidden0_fits input hidden"
    and keeps: "keeps_batch unit"
  shows "nrows (data (ps_data ps)) = 9 \<and> nrows (data fh) = 3 \<and>
         (\<exists>st hs. recurrence unit (segments (ps_data input) 0 (ps_batch_sizes input)) hidden = Inr st \<and>
            hidden_states st = map Filled hs \<and>
            rows (data fh) =
              [rows (data (hs ! 3)) ! 0, rows (data (hs ! 2)) ! 1, rows (data (hs ! 1)) ! 2]) \<and>
         map (seq_length (ps_batch_sizes input)) [0, 1, 2] = [4, 3, 2]"
proof -
  let ?bs = "ps_batch_sizes input"
  let ?X = "segments (ps_data input) 0 ?bs"
  have wf: "wf_packed input"
    using bs nine by (simp add: wf_packed_def)
  from forward_sound [OF fw]
  obtain hs where hs: "length hs = length ?bs"
    "recurrence unit ?X hidden = Inr (state_after hidden ?X hs (length ?bs))"
    "\<forall>i<length ?bs. unit (?X ! i) (prev_hidden hidden ?X hs i) = Inr (hs ! i) \<and>
        rows (data (hs ! i)) \<noteq> []"
    "cat hs = Inr (ps_data ps)"
    "final_hidden_spec hs ?bs = Inr fh"
    by blast
  note full = state_after_full [OF hs(1), of hidden ?X]
  have cnt: "nrows (data (hs ! t)) = nat (?bs ! t)" if "t < length ?bs" for t
    using hidden_rows_count [OF wf fits keeps hs(1) hs(3) that] .
  have n: "length (rows (data (hs ! 0))) = 3" "length (rows (data (hs ! 1))) = 3"
    "length (rows (data (hs ! 2))) = 2" "length (rows (data (hs ! 3))) = 1"
    using cnt [of 0] cnt [of 1] cnt [of 2] cnt [of 3] by (simp_all add: bs nrows_def)
  have l4: "hs = [hs ! 0, hs ! 1, hs ! 2, hs ! 3]"
    using hs(1) by (intro list4) (simp add: bs)
  have "rows (data (ps_data ps)) = concat (map (\<lambda>h. rows (data h)) hs)"
    using cat_Inr_rows [OF hs(4)] .
  then have "rows (data (ps_data ps)) =
      rows (data (hs ! 0)) @ rows (data (hs ! 1)) @ rows (data (hs ! 2)) @ rows (data (hs ! 3))"
    by (subst (asm) l4) simp
  then have out: "nrows (data (ps_data ps)) = 9"
    using n by (simp add: nrows_def)
  have fin: "rows (data fh) =
      [last (rows (data (hs ! 3))), last (rows (data (hs ! 2))), last (rows (data (hs ! 1)))]"
    using final_hidden_rows [OF hs(5)] by (simp add: bs final_order_example)
  have lasts: "last (rows (data (hs ! 3))) = rows (data (hs ! 3)) ! 0"
    "last (rows (data (hs ! 2))) = rows (data (hs ! 2)) ! 1"
    "last (rows (data (hs ! 1))) = rows (data (hs ! 1)) ! 2"
    using n by (simp_all add: last_nth_length numeral_eq_Suc)
  have rows3: "rows (data fh) =
      [rows (data (hs ! 3)) ! 0, rows (data (hs ! 2)) ! 1, rows (data (hs ! 1)) ! 2]"
    using fin lasts by simp
  then have three: "nrows (data fh) = 3"
    by (simp add: nrows_def)
  have lens: "map (seq_length ?bs) [0, 1, 2] = [4, 3, 2]"
    by (simp add: bs seq_length_def)
  have "recurrence unit ?X hidden = Inr (state_after hidden ?X hs (length ?bs)) \<and>
        hidden_states (state_after hidden ?X hs (length ?bs)) = map Filled hs"
    using hs(2) full by simp
  with out three rows3 lens show ?thesis by blast
qed

lemma wf_example_packed: "wf_packed example_packed"
  by (simp add: wf_packed_def example_packed_def example_data_def Tensor_init_def nrows_def)

theorem C3_example_batch_witness:
  "TimeIterator_forward (example_rnn ''relu'') example_packed None =
     Inr (\<lparr>ps_data = \<lparr>data = \<lparr>ncols = 1,
                rows = [[1], [2], [3], [5], [7], [9], [12], [15], [21]]\<rparr>,
              grad = None, requires_grad = True, is_parameter = False\<rparr>,
            ps_sorted_indices = [0, 1, 2], ps_batch_sizes = [3, 3, 2, 1]\<rparr>,
          \<lparr>data = \<lparr>ncols = 1, rows = [[21], [15], [9]]\<rparr>, grad = None,
            requires_grad = True, is_parameter = False\<rparr>) \<and>
   ps_batch_sizes example_packed = [3, 3, 2, 1] \<and>
   nrows (data (ps_data example_packed)) = 9 \<and>
   hidden0_fits example_packed None \<and>
   keeps_batch (example_rnn ''relu'') \<and>
   nrows \<lparr>ncols = 1, rows = [[21], [15], [9 :: real]]\<rparr> = 3 \<and>
   map (seq_length (ps_batch_sizes example_packed)) [0, 1, 2] = [4, 3, 2]"
proof -
  have bs: "ps_batch_sizes example_packed = [3, 3, 2, 1]"
    by (simp add: example_packed_def)
  have nine: "nrows (data (ps_data example_packed)) = 9"
    by (simp add: example_packed_def example_data_def Tensor_init_def nrows_def)
  have fits: "hidden0_fits example_packed None"
    by (simp add: hidden0_fits_def)
  have keeps: "keeps_batch (example_rnn ''relu'')"
    unfolding example_rnn_def by (rule RNNUnit_keeps_batch)
  from C3_example_batch [OF example_packed_forward bs nine fits keeps]
  show ?thesis
    using example_packed_forward bs nine fits keeps by simp
qed

theorem C3_four_rows_counterexample:
  "TimeIterator_forward (example_rnn ''relu'') example_packed None =
     Inr (\<lparr>ps_data = \<lparr>data = \<lparr>ncols = 1,
                rows = [[1], [2], [3], [5], [7], [9], [12], [15], [21]]\<rparr>,
              grad = None, requires_grad = True, is_parameter = False\<rparr>,
            ps_sorted_indices = [0, 1, 2], ps_batch_sizes = [3, 3, 2, 1]\<rparr>,
          \<lparr>data = \<lparr>ncols = 1, rows = [[21], [15], [9]]\<rparr>, grad = None,
            requires_grad = True, is_parameter = False\<rparr>) \<and>
   ps_batch_sizes example_packed = [3, 3, 2, 1] \<and>
   nrows \<lparr>ncols = 1, rows = [[21], [15], [9 :: real]]\<rparr> \<noteq> 4"
  using example_packed_forward by (simp add: example_packed_def nrows_def)

text \<open>
  C4: on a single timestep with batch size 2, \<^verbatim>\<open>TimeIterator.forward\<close> calls the
  unit once, with the given hidden state, and \<^verbatim>\<open>hidden_states\<close> has one entry of two
  rows; the final hidden tensor returned has only the last of these rows.
\<close>

theorem C4_single_timestep_final_hidden:
  "wf_packed single_step_packed \<and>
   TimeIterator_forward (example_rnn ''relu'') single_step_packed None =
     Inr (\<lparr>ps_data = \<lparr>data = \<lparr>ncols = 1, rows = [[1], [2]]\<rparr>,
              grad = None, requires_grad = True, is_parameter = False\<rparr>,
            ps_sorted_indices = [0, 1], ps_batch_sizes = [2]\<rparr>,
          \<lparr>data = \<lparr>ncols = 1, rows = [[2]]\<rparr>, grad = None,
            requires_grad = True, is_parameter = False\<rparr>) \<and>
   recurrence (example_rnn ''relu'')
       (segments (ps_data single_step_packed) 0 (ps_batch_sizes single_step_packed)) None =
     Inr \<lparr>hidden_states =
            [Filled \<lparr>data = \<lparr>ncols = 1, rows = [[1], [2]]\<rparr>, grad = None,
                      requires_grad = True, is_parameter = False\<rparr>],
          hidden_step_per_batch =
            [\<lparr>data = \<lparr>ncols = 1, rows = [[2]]\<rparr>, grad = None,
               requires_grad = True, is_parameter = False\<rparr>],
          unit_calls = [(example_x, None)]\<rparr>"
proof -
  have "wf_packed single_step_packed"
    by (simp add: wf_packed_def single_step_packed_def example_x_def Tensor_init_def nrows_def)
  moreover have "recurrence (example_rnn ''relu'')
       (segments (ps_data single_step_packed) 0 (ps_batch_sizes single_step_packed)) None =
     Inr \<lparr>hidden_states =
            [Filled \<lparr>data = \<lparr>ncols = 1, rows = [[1], [2]]\<rparr>, grad = None,
                      requires_grad = True, is_parameter = False\<rparr>],
          hidden_step_per_batch =
            [\<lparr>data = \<lparr>ncols = 1, rows = [[2]]\<rparr>, grad = None,
               requires_grad = True, is_parameter = False\<rparr>],
          unit_calls = [(example_x, None)]\<rparr>"
    by (simp add: eval_defs single_step_packed_def)
  ultimately show ?thesis
    using single_step_forward by simp
qed

lemma list_all_ncols_final:
  assumes "length hs = length bs" "list_all (\<lambda>h. ncols (data h) = c) hs"
  shows "list_all (\<lambda>u. ncols (data u) = c) (map (\<lambda>t. exit_hidden (hs ! t)) (final_order bs))"
  using assms final_order_in_range [of bs]
  by (auto simp: list_all_iff exit_hidden_def op_result_def)

lemma cat_Inl:
  "cat ts = Inl e \<Longrightarrow>
   e = ValueError \<and> (ts = [] \<or> \<not> list_all (\<lambda>u. ncols (data u) = ncols (data (hd ts))) ts)"
  by (auto simp: cat_def split: list.splits if_splits)

lemma cat_Inr_cols:
  "cat ts = Inr y \<Longrightarrow> ts \<noteq> [] \<and> list_all (\<lambda>u. ncols (data u) = ncols (data (hd ts))) ts"
  by (auto simp: cat_def split: list.splits if_splits)

lemma run_loop_fails:
  assumes "run_loop unit X hidden [length hs..<n] (state_after hidden X hs n) = Inl e"
    and "length hs \<le> n"
    and "\<forall>i<length hs. unit (X ! i) (prev_hidden hidden X hs i) = Inr (hs ! i) \<and>
            rows (data (hs ! i)) \<noteq> []"
  shows "\<exists>hs'. length hs' < n \<and>
           (\<forall>i<length hs'. unit (X ! i) (prev_hidden hidden X hs' i) = Inr (hs' ! i) \<and>
               rows (data (hs' ! i)) \<noteq> []) \<and>
           (unit (X ! length hs') (prev_hidden hidden X hs' (length hs')) = Inl e \<or>
            (\<exists>y. unit (X ! length hs') (prev_hidden hidden X hs' (length hs')) = Inr y \<and>
                 rows (data y) = [] \<and> e = IndexError))"
  using assms
proof (induction "n - length hs" arbitrary: hs)
  case 0
  then have "length hs = n" by simp
  with "0.prems"(1) show ?case by simp
next
  case (Suc m)
  then have lt: "length hs < n" by simp
  then have up: "[length hs..<n] = length hs # [Suc (length hs)..<n]"
    by (simp add: upt_rec)
  let ?call = "unit (X ! length hs) (prev_hidden hidden X hs (length hs))"
  show ?case
  proof (cases ?call)
    case (Inl e')
    with Suc.prems(1) have "e' = e"
      unfolding up by (simp add: loop_body_state_after [OF lt])
    with Inl lt Suc.prems(3) show ?thesis by blast
  next
    case (Inr y)
    show ?thesis
    proof (cases "rows (data y) = []")
      case True
      with Inr Suc.prems(1) have "e = IndexError"
        unfolding up by (simp add: loop_body_state_after [OF lt])
      with Inr True lt Suc.prems(3) show ?thesis by blast
    next
      case False
      with Inr Suc.prems(1)
      have rest: "run_loop unit X hidden [length (hs @ [y])..<n] (state_after hidden X (hs @ [y]) n) = Inl e"
        unfolding up by (simp add: loop_body_state_after [OF lt])
      have m: "m = n - length (hs @ [y])" using Suc.hyps(2) by simp
      have le: "length (hs @ [y]) \<le> n" using lt by simp
      have steps: "\<forall>i<length (hs @ [y]).
          unit (X ! i) (prev_hidden hidden X (hs @ [y]) i) = Inr ((hs @ [y]) ! i) \<and>
          rows (data ((hs @ [y]) ! i)) \<noteq> []"
      proof (intro allI impI)
        fix i assume i: "i < length (hs @ [y])"
        show "unit (X ! i) (prev_hidden hidden X (hs @ [y]) i) = Inr ((hs @ [y]) ! i) \<and>
              rows (data ((hs @ [y]) ! i)) \<noteq> []"
        proof (cases "i = length hs")
          case True
          then show ?thesis
            using Inr False by (simp add: prev_hidden_append)
        next
          case False
          with i have "i < length hs" by simp
          then show ?thesis
            using Suc.prems(3) by (simp add: prev_hidden_append nth_append)
        qed
      qed
      from Suc.hyps(1) [OF m rest le steps] show ?thesis .
    qed
  qed
qed

lemma recurrence_fails:
  assumes "recurrence unit X hidden = Inl e"
  shows "\<exists>hs. length hs < length X \<and>
           (\<forall>i<length hs. unit (X ! i) (prev_hidden hidden X hs i) = Inr (hs ! i) \<and>
               rows (data (hs ! i)) \<noteq> []) \<and>
           (unit (X ! length hs) (prev_hidden hidden X hs (length hs)) = Inl e \<or>
            (\<exists>y. unit (X ! length hs) (prev_hidden hidden X hs (length hs)) = Inr y \<and>
                 rows (data y) = [] \<and> e = IndexError))"
proof -
  have init: "\<lparr>hidden_states = map (\<lambda>x. Placeholder) X, hidden_step_per_batch = [], unit_calls = []\<rparr>
       = state_after hidden X [] (length X)"
    by (simp add: state_after_def map_replicate_const)
  from assms have "run_loop unit X hidden [length ([] :: array2 Tensor list)..<length X]
       (state_after hidden X [] (length X)) = Inl e"
    unfolding recurrence_def init by simp
  from run_loop_fails [OF this] show ?thesis by simp
qed

lemma forward_fails:
  assumes fw: "TimeIterator_forward unit input hidden = Inl e"
  shows "\<exists>hs. length hs \<le> length (ps_batch_sizes input) \<and>
           (\<forall>i<length hs.
               unit (segments (ps_data input) 0 (ps_batch_sizes input) ! i)
                    (prev_hidden hidden (segments (ps_data input) 0 (ps_batch_sizes input)) hs i)
                 = Inr (hs ! i) \<and> rows (data (hs ! i)) \<noteq> []) \<and>
           (length hs < length (ps_batch_sizes input) \<and>
              (unit (segments (ps_data input) 0 (ps_batch_sizes input) ! length hs)
                    (prev_hidden hidden (segments (ps_data input) 0 (ps_batch_sizes input)) hs (length hs))
                 = Inl e \<or>
               (\<exists>y. unit (segments (ps_data input) 0 (ps_batch_sizes input) ! length hs)
                     (prev_hidden hidden (segments (ps_data input) 0 (ps_batch_sizes input)) hs (length hs))
                   = Inr y \<and> rows (data y) = [] \<and> e = IndexError)) \<or>
            length hs = length (ps_batch_sizes input) \<and> e = ValueError \<and>
              (hs = [] \<or> \<not> list_all (\<lambda>h. ncols (data h) = ncols (data (hd hs))) hs))"
proof -
  let ?bs = "ps_batch_sizes input"
  let ?X = "segments (ps_data input) 0 ?bs"
  show ?thesis
  proof (cases "recurrence unit ?X hidden")
    case (Inl e')
    with fw have "e' = e"
      by (simp add: TimeIterator_forward_def Let_def)
    with Inl have "recurrence unit ?X hidden = Inl e" by simp
    from recurrence_fails [OF this]
    obtain hs where "length hs < length ?bs"
      "\<forall>i<length hs. unit (?X ! i) (prev_hidden hidden ?X hs i) = Inr (hs ! i) \<and>
               rows (data (hs ! i)) \<noteq> []"
      "unit (?X ! length hs) (prev_hidden hidden ?X hs (length hs)) = Inl e \<or>
            (\<exists>y. unit (?X ! length hs) (prev_hidden hidden ?X hs (length hs)) = Inr y \<and>
                 rows (data y) = [] \<and> e = IndexError)"
      by auto
    then show ?thesis
      by (intro exI [of _ hs]) simp
  next
    case (Inr st)
    from recurrence_sound [OF Inr]
    obtain hs where hs: "length hs = length ?bs" "st = state_after hidden ?X hs (length ?bs)"
      "\<forall>i<length ?bs. unit (?X ! i) (prev_hidden hidden ?X hs i) = Inr (hs ! i) \<and>
                          rows (data (hs ! i)) \<noteq> []"
      by auto
    have rec: "recurrence unit ?X hidden = Inr (state_after hidden ?X hs (length ?bs))"
      using Inr hs(2) by simp
    have bad: "e = ValueError \<and> (hs = [] \<or> \<not> list_all (\<lambda>h. ncols (data h) = ncols (data (hd hs))) hs)"
    proof (cases "cat hs")
      case (Inl e')
      note full = state_after_full [OF hs(1), of hidden ?X]
      have "list_all (\<lambda>i. i < length (map exit_hidden hs)) (sort (map (last_timestep ?bs) (remdups ?bs)))"
        using final_order_in_range [of ?bs] hs(1) by (simp add: final_order_def list_all_iff)
      from select_steps_eq [OF this]
      have "TimeIterator_forward unit input hidden = Inl e'"
        unfolding TimeIterator_forward_def Let_def rec
        by (simp add: full target_hidden_step_indices_eq Inl)
      with fw have "e' = e" by simp
      with cat_Inl [OF Inl] show ?thesis by simp
    next
      case (Inr out)
      from cat_Inr_cols [OF Inr]
      have ne: "hs \<noteq> []" and cols: "list_all (\<lambda>u. ncols (data u) = ncols (data (hd hs))) hs"
        by simp_all
      have bne: "?bs \<noteq> []" using ne hs(1) by auto
      have "map (\<lambda>t. exit_hidden (hs ! t)) (final_order ?bs) \<noteq> []"
        using final_order_nonempty [OF bne] by simp
      from cat_succeeds [OF this list_all_ncols_final [OF hs(1) cols]]
      obtain fh where fh: "final_hidden_spec hs ?bs = Inr fh"
        unfolding final_hidden_spec_def by blast
      from forward_complete [OF rec hs(1) Inr fh] fw show ?thesis by simp
    qed
    with hs(1,3) show ?thesis
      by (intro exI [of _ hs]) simp
  qed
qed

text \<open>
  C7: \<^verbatim>\<open>TimeIterator.forward\<close> does not validate the batch sizes.  For
  any batch sizes that are not empty, it starts with the call of the unit on the first
  segment (an error of that call is the error of \<^verbatim>\<open>forward\<close>).  It returns a
  result exactly when every call of the unit returns a hidden state with at least one
  row and all hidden states have the same number of columns.  Otherwise it fails with
  the error raised during the computation: the error of the first call of the unit that
  fails, the IndexError of the last-row lookup on the first hidden state without rows,
  or the ValueError of concatenating hidden states of different widths.
\<close>

theorem C7_no_validation:
  assumes ne: "ps_batch_sizes input \<noteq> []"
  shows "(\<forall>e. unit (segments (ps_data input) 0 (ps_batch_sizes input) ! 0) hidden = Inl e \<longrightarrow>
            TimeIterator_forward unit input hidden = Inl e) \<and>
         (\<forall>hs c. length hs = length (ps_batch_sizes input) \<and>
            (\<forall>i<length (ps_batch_sizes input).
               unit (segments (ps_data input) 0 (ps_batch_sizes input) ! i)
                    (prev_hidden hidden (segments (ps_data input) 0 (ps_batch_sizes input)) hs i)
                 = Inr (hs ! i) \<and>
               rows (data (hs ! i)) \<noteq> [] \<and> ncols (data (hs ! i)) = c) \<longrightarrow>
            (\<exists>ps fh. TimeIterator_forward unit input hidden = Inr (ps, fh))) \<and>
         (\<forall>ps fh. TimeIterator_forward unit input hidden = Inr (ps, fh) \<longrightarrow>
            (\<exists>hs. length hs = length (ps_batch_sizes input) \<and>
               (\<forall>i<length (ps_batch_sizes input).
                  unit (segments (ps_data input) 0 (ps_batch_sizes input) ! i)
                       (prev_hidden hidden (segments (ps_data input) 0 (ps_batch_sizes input)) hs i)
                    = Inr (hs ! i) \<and>
                  rows (data (hs ! i)) \<noteq> [] \<and> ncols (data (hs ! i)) = ncols (data (hs ! 0))))) \<and>
         (\<forall>e. TimeIterator_forward unit input hidden = Inl e \<longrightarrow>
            (\<exists>hs. length hs \<le> length (ps_batch_sizes input) \<and>
               (\<forall>i<length hs.
                  unit (segments (ps_data input) 0 (ps_batch_sizes input) ! i)
                       (prev_hidden hidden (segments (ps_data input) 0 (ps_batch_sizes input)) hs i)
                    = Inr (hs ! i) \<and> rows (data (hs ! i)) \<noteq> []) \<and>
               (length hs < length (ps_batch_sizes input) \<and>
                  (unit (segments (ps_data input) 0 (ps_batch_sizes input) ! length hs)
                        (prev_hidden hidden (segments (ps_data input) 0 (ps_batch_sizes input)) hs (length hs))
                     = Inl e \<or>
                   (\<exists>y. unit (segments (ps_data input) 0 (ps_batch_sizes input) ! length hs)
                         (prev_hidden hidden (segments (ps_data input) 0 (ps_batch_sizes input)) hs (length hs))
                       = Inr y \<and> rows (data y) = [] \<and> e = IndexError)) \<or>
                length hs = length (ps_batch_sizes input) \<and> e = ValueError \<and>
                  \<not> list_all (\<lambda>h. ncols (data h) = ncols (data (hd hs))) hs)))"
proof -
  let ?bs = "ps_batch_sizes input"
  let ?X = "segments (ps_data input) 0 ?bs"
  have Xne: "?X \<noteq> []"
    using ne by (metis length_segments length_0_conv)
  have first: "TimeIterator_forward unit input hidden = Inl e" if "unit (?X ! 0) hidden = Inl e" for e
    using recurrence_first_call_fails [where unit = unit, OF Xne that]
    by (simp add: TimeIterator_forward_def Let_def)
  have ok: "\<exists>ps fh. TimeIterator_forward unit input hidden = Inr (ps, fh)"
    if len: "length hs = length ?bs"
      and steps: "\<forall>i<length ?bs. unit (?X ! i) (prev_hidden hidden ?X hs i) = Inr (hs ! i) \<and>
               rows (data (hs ! i)) \<noteq> [] \<and> ncols (data (hs ! i)) = c"
    for hs c
  proof -
    have lenX: "length hs = length ?X" using len by simp
    have steps': "\<forall>i<length ?X. unit (?X ! i) (prev_hidden hidden ?X hs i) = Inr (hs ! i) \<and>
               rows (data (hs ! i)) \<noteq> []"
      using steps by simp
    have rec: "recurrence unit ?X hidden = Inr (state_after hidden ?X hs (length ?bs))"
      using recurrence_complete [OF lenX steps'] by simp
    have cols: "list_all (\<lambda>h. ncols (data h) = c) hs"
      using steps len by (simp add: list_all_length)
    have "hs \<noteq> []" using len ne by auto
    from cat_succeeds [OF this cols] obtain out where out: "cat hs = Inr out" by blast
    have "map (\<lambda>t. exit_hidden (hs ! t)) (final_order ?bs) \<noteq> []"
      using final_order_nonempty [OF ne] by simp
    from cat_succeeds [OF this list_all_ncols_final [OF len cols]]
    obtain fh where fh: "final_hidden_spec hs ?bs = Inr fh"
      unfolding final_hidden_spec_def by blast
    from forward_complete [OF rec len out fh] show ?thesis by blast
  qed
  have conv: "\<exists>hs. length hs = length ?bs \<and>
               (\<forall>i<length ?bs. unit (?X ! i) (prev_hidden hidden ?X hs i) = Inr (hs ! i) \<and>
                  rows (data (hs ! i)) \<noteq> [] \<and> ncols (data (hs ! i)) = ncols (data (hs ! 0)))"
    if fw: "TimeIterator_forward unit input hidden = Inr (ps, fh)" for ps fh
  proof -
    from forward_sound [OF fw]
    obtain hs where hs: "length hs = length ?bs"
      "\<forall>i<length ?bs. unit (?X ! i) (prev_hidden hidden ?X hs i) = Inr (hs ! i) \<and>
          rows (data (hs ! i)) \<noteq> []"
      "cat hs = Inr (ps_data ps)"
      by blast
    from cat_Inr_cols [OF hs(3)]
    have hne: "hs \<noteq> []" and cols: "list_all (\<lambda>u. ncols (data u) = ncols (data (hd hs))) hs"
      by simp_all
    have "hd hs = hs ! 0" using hne by (rule hd_conv_nth)
    with cols have "\<forall>i<length ?bs. ncols (data (hs ! i)) = ncols (data (hs ! 0))"
      using hs(1) by (simp add: list_all_length)
    with hs(1,2) show ?thesis by blast
  qed
  have fails: "\<exists>hs. length hs \<le> length ?bs \<and>
               (\<forall>i<length hs. unit (?X ! i) (prev_hidden hidden ?X hs i) = Inr (hs ! i) \<and>
                   rows (data (hs ! i)) \<noteq> []) \<and>
               (length hs < length ?bs \<and>
                  (unit (?X ! length hs) (prev_hidden hidden ?X hs (length hs)) = Inl e \<or>
                   (\<exists>y. unit (?X ! length hs) (prev_hidden hidden ?X hs (length hs)) = Inr y \<and>
                        rows (data y) = [] \<and> e = IndexError)) \<or>
                length hs = length ?bs \<and> e = ValueError \<and>
                  \<not> list_all (\<lambda>h. ncols (data h) = ncols (data (hd hs))) hs)"
    if fw: "TimeIterator_forward unit input hidden = Inl e" for e
  proof -
    from forward_fails [OF fw]
    obtain hs where hs: "length hs \<le> length ?bs"
      "\<forall>i<length hs. unit (?X ! i) (prev_hidden hidden ?X hs i) = Inr (hs ! i) \<and>
           rows (data (hs ! i)) \<noteq> []"
      "length hs < length ?bs \<and>
          (unit (?X ! length hs) (prev_hidden hidden ?X hs (length hs)) = Inl e \<or>
           (\<exists>y. unit (?X ! length hs) (prev_hidden hidden ?X hs (length hs)) = Inr y \<and>
                rows (data y) = [] \<and> e = IndexError)) \<or>
        length hs = length ?bs \<and> e = ValueError \<and>
          (hs = [] \<or> \<not> list_all (\<lambda>h. ncols (data h) = ncols (data (hd hs))) hs)"
      by blast
    have "hs \<noteq> []" if "length hs = length ?bs"
      using that ne by auto
    with hs(3) have "length hs < length ?bs \<and>
          (unit (?X ! length hs) (prev_hidden hidden ?X hs (length hs)) = Inl e \<or>
           (\<exists>y. unit (?X ! length hs) (prev_hidden hidden ?X hs (length hs)) = Inr y \<and>
                rows (data y) = [] \<and> e = IndexError)) \<or>
        length hs = length ?bs \<and> e = ValueError \<and>
          \<not> list_all (\<lambda>h. ncols (data h) = ncols (data (hd hs))) hs"
      by blast
    with hs(1,2) show ?thesis by blast
  qed
  have A: "\<forall>e. unit (?X ! 0) hidden = Inl e \<longrightarrow> TimeIterator_forward unit input hidden = Inl e"
    using first by blast
  have B: "\<forall>hs c. length hs = length ?bs \<and>
            (\<forall>i<length ?bs. unit (?X ! i) (prev_hidden hidden ?X hs i) = Inr (hs ! i) \<and>
               rows (data (hs ! i)) \<noteq> [] \<and> ncols (data (hs ! i)) = c) \<longrightarrow>
            (\<exists>ps fh. TimeIterator_forward unit input hidden = Inr (ps, fh))"
    using ok by blast
  have C: "\<forall>ps fh. TimeIterator_forward unit input hidden = Inr (ps, fh) \<longrightarrow>
            (\<exists>hs. length hs = length ?bs \<and>
               (\<forall>i<length ?bs. unit (?X ! i) (prev_hidden hidden ?X hs i) = Inr (hs ! i) \<and>
                  rows (data (hs ! i)) \<noteq> [] \<and> ncols (data (hs ! i)) = ncols (data (hs ! 0))))"
    using conv by blast
  have D: "\<forall>e. TimeIterator_forward unit input hidden = Inl e \<longrightarrow>
            (\<exists>hs. length hs \<le> length ?bs \<and>
               (\<forall>i<length hs. unit (?X ! i) (prev_hidden hidden ?X hs i) = Inr (hs ! i) \<and>
                   rows (data (hs ! i)) \<noteq> []) \<and>
               (length hs < length ?bs \<and>
                  (unit (?X ! length hs) (prev_hidden hidden ?X hs (length hs)) = Inl e \<or>
                   (\<exists>y. unit (?X ! length hs) (prev_hidden hidden ?X hs (length hs)) = Inr y \<and>
                        rows (data y) = [] \<and> e = IndexError)) \<or>
                length hs = length ?bs \<and> e = ValueError \<and>
                  \<not> list_all (\<lambda>h. ncols (data h) = ncols (data (hd hs))) hs))"
    using fails by blast
  show ?thesis
    by (rule conjI [OF A conjI [OF B conjI [OF C D]]])
qed

lemma nonmonotonic_forward:
  "TimeIterator_forward (example_rnn ''relu'') nonmonotonic_packed None = Inl ValueError"
  by (simp add: eval_defs nonmonotonic_packed_def)

theorem C7_no_validation_witness:
  "ps_batch_sizes mismatched_packed \<noteq> [] \<and>
   sum_list (ps_batch_sizes mismatched_packed) \<noteq> int (nrows (data (ps_data mismatched_packed))) \<and>
   TimeIterator_forward (example_rnn ''sigmoid'') mismatched_packed None = Inl AttributeError \<and>
   (\<exists>ps fh. TimeIterator_forward (example_rnn ''relu'') mismatched_packed None = Inr (ps, fh)) \<and>
   (\<exists>hs. length hs = length (ps_batch_sizes mismatched_packed) \<and>
      (\<forall>i<length (ps_batch_sizes mismatched_packed).
          example_rnn ''relu''
            (segments (ps_data mismatched_packed) 0 (ps_batch_sizes mismatched_packed) ! i)
            (prev_hidden None
               (segments (ps_data mismatched_packed) 0 (ps_batch_sizes mismatched_packed)) hs i)
          = Inr (hs ! i) \<and>
          rows (data (hs ! i)) \<noteq> [] \<and> ncols (data (hs ! i)) = ncols (data (hs ! 0)))) \<and>
   ps_batch_sizes nonmonotonic_packed \<noteq> [] \<and>
   TimeIterator_forward (example_rnn ''relu'') nonmonotonic_packed None = Inl ValueError \<and>
   (\<exists>hs. length hs \<le> length (ps_batch_sizes nonmonotonic_packed) \<and>
      (\<forall>i<length hs.
          example_rnn ''relu''
            (segments (ps_data nonmonotonic_packed) 0 (ps_batch_sizes nonmonotonic_packed) ! i)
            (prev_hidden None
               (segments (ps_data nonmonotonic_packed) 0 (ps_batch_sizes nonmonotonic_packed)) hs i)
          = Inr (hs ! i) \<and> rows (data (hs ! i)) \<noteq> []) \<and>
      (length hs < length (ps_batch_sizes nonmonotonic_packed) \<and>
         (example_rnn ''relu''
            (segments (ps_data nonmonotonic_packed) 0 (ps_batch_sizes nonmonotonic_packed) ! length hs)
            (prev_hidden None
               (segments (ps_data nonmonotonic_packed) 0 (ps_batch_sizes nonmonotonic_packed)) hs
               (length hs))
          = Inl ValueError \<or>
          (\<exists>y. example_rnn ''relu''
             (segments (ps_data nonmonotonic_packed) 0 (ps_batch_sizes nonmonotonic_packed) ! length hs)
             (prev_hidden None
                (segments (ps_data nonmonotonic_packed) 0 (ps_batch_sizes nonmonotonic_packed)) hs
                (length hs))
            = Inr y \<and> rows (data y) = [] \<and> ValueError = IndexError)) \<or>
       length hs = length (ps_batch_sizes nonmonotonic_packed) \<and> ValueError = ValueError \<and>
         \<not> list_all (\<lambda>h. ncols (data h) = ncols (data (hd hs))) hs))"
proof -
  have ne: "ps_batch_sizes mismatched_packed \<noteq> []"
    by (simp add: mismatched_packed_def)
  have ne2: "ps_batch_sizes nonmonotonic_packed \<noteq> []"
    by (simp add: nonmonotonic_packed_def)
  have mal: "sum_list (ps_batch_sizes mismatched_packed)
      \<noteq> int (nrows (data (ps_data mismatched_packed)))"
    by (simp add: mismatched_packed_def Tensor_init_def nrows_def)
  let ?X = "segments (ps_data mismatched_packed) 0 (ps_batch_sizes mismatched_packed)"
  let ?h0 = "\<lparr>data = \<lparr>ncols = 1, rows = [[1 :: real]]\<rparr>, grad = None, requires_grad = True,
              is_parameter = False\<rparr>"
  let ?h1 = "\<lparr>data = \<lparr>ncols = 1, rows = [[3 :: real]]\<rparr>, grad = None, requires_grad = True,
              is_parameter = False\<rparr>"
  have fail: "example_rnn ''sigmoid'' (?X ! 0) None = Inl AttributeError"
    by (simp add: eval_defs mismatched_packed_def)
  have steps: "length [?h0, ?h1] = length (ps_batch_sizes mismatched_packed) \<and>
     (\<forall>i<length (ps_batch_sizes mismatched_packed).
         example_rnn ''relu'' (?X ! i) (prev_hidden None ?X [?h0, ?h1] i) = Inr ([?h0, ?h1] ! i) \<and>
         rows (data ([?h0, ?h1] ! i)) \<noteq> [] \<and> ncols (data ([?h0, ?h1] ! i)) = 1)"
    by (simp add: eval_defs mismatched_packed_def prev_hidden_def less_Suc_eq)
  note sig = C7_no_validation [OF ne, of "example_rnn ''sigmoid''" None]
  note rel = C7_no_validation [OF ne, of "example_rnn ''relu''" None]
  note non = C7_no_validation [OF ne2, of "example_rnn ''relu''" None]
  from sig fail
  have 1: "TimeIterator_forward (example_rnn ''sigmoid'') mismatched_packed None = Inl AttributeError"
    by blast
  from rel steps
  have 2: "\<exists>ps fh. TimeIterator_forward (example_rnn ''relu'') mismatched_packed None = Inr (ps, fh)"
    by blast
  from rel 2
  have 3: "\<exists>hs. length hs = length (ps_batch_sizes mismatched_packed) \<and>
      (\<forall>i<length (ps_batch_sizes mismatched_packed).
          example_rnn ''relu'' (?X ! i) (prev_hidden None ?X hs i) = Inr (hs ! i) \<and>
          rows (data (hs ! i)) \<noteq> [] \<and> ncols (data (hs ! i)) = ncols (data (hs ! 0)))"
    by blast
  from non [THEN conjunct2, THEN conjunct2, THEN conjunct2, rule_format, OF nonmonotonic_forward]
  have 4: "\<exists>hs. length hs \<le> length (ps_batch_sizes nonmonotonic_packed) \<and>
      (\<forall>i<length hs.
          example_rnn ''relu''
            (segments (ps_data nonmonotonic_packed) 0 (ps_batch_sizes nonmonotonic_packed) ! i)
            (prev_hidden None
               (segments (ps_data nonmonotonic_packed) 0 (ps_batch_sizes nonmonotonic_packed)) hs i)
          = Inr (hs ! i) \<and> rows (data (hs ! i)) \<noteq> []) \<and>
      (length hs < length (ps_batch_sizes nonmonotonic_packed) \<and>
         (example_rnn ''relu''
            (segments (ps_data nonmonotonic_packed) 0 (ps_batch_sizes nonmonotonic_packed) ! length hs)
            (prev_hidden None
               (segments (ps_data nonmonotonic_packed) 0 (ps_batch_sizes nonmonotonic_packed)) hs
               (length hs))
          = Inl ValueError \<or>
          (\<exists>y. example_rnn ''relu''
             (segments (ps_data nonmonotonic_packed) 0 (ps_batch_sizes nonmonotonic_packed) ! length hs)
             (prev_hidden None
                (segments (ps_data nonmonotonic_packed) 0 (ps_batch_sizes nonmonotonic_packed)) hs
                (length hs))
            = Inr y \<and> rows (data y) = [] \<and> ValueError = IndexError)) \<or>
       length hs = length (ps_batch_sizes nonmonotonic_packed) \<and> ValueError = ValueError \<and>
         \<not> list_all (\<lambda>h. ncols (data h) = ncols (data (hd hs))) hs)" .
  show ?thesis
    by (intro conjI ne mal 1 2 3 ne2 nonmonotonic_forward 4)
qed

theorem C7_mismatched_sum_counterexample:
  "sum_list (ps_batch_sizes mismatched_packed) = 2 \<and>
   nrows (data (ps_data mismatched_packed)) = 3 \<and>
   TimeIterator_forward (example_rnn ''relu'') mismatched_packed None =
     Inr (\<lparr>ps_data = \<lparr>data = \<lparr>ncols = 1, rows = [[1], [3]]\<rparr>,
              grad = None, requires_grad = True, is_parameter = False\<rparr>,
            ps_sorted_indices = [0], ps_batch_sizes = [1, 1]\<rparr>,
          \<lparr>data = \<lparr>ncols = 1, rows = [[3]]\<rparr>, grad = None,
            requires_grad = True, is_parameter = False\<rparr>)"
  using mismatched_forward
  by (simp add: mismatched_packed_def Tensor_init_def nrows_def)

theorem C9_packed_output_witness:
  "TimeIterator_forward (example_rnn ''relu'') example_packed None =
     Inr (\<lparr>ps_data = \<lparr>data = \<lparr>ncols = 1,
                rows = [[1], [2], [3], [5], [7], [9], [12], [15], [21]]\<rparr>,
              grad = None, requires_grad = True, is_parameter = False\<rparr>,
            ps_sorted_indices = [0, 1, 2], ps_batch_sizes = [3, 3, 2, 1]\<rparr>,
          \<lparr>data = \<lparr>ncols = 1, rows = [[21], [15], [9]]\<rparr>, grad = None,
            requires_grad = True, is_parameter = False\<rparr>) \<and>
   (\<exists>st hs. recurrence (example_rnn ''relu'')
               (segments (ps_data example_packed) 0 (ps_batch_sizes example_packed)) None = Inr st \<and>
      hidden_states st = map Filled hs \<and>
      length hs = length (ps_batch_sizes example_packed) \<and>
      concat (map (\<lambda>h. rows (data h)) hs) = [[1], [2], [3], [5], [7], [9], [12], [15], [21]])"
  using C9_packed_output [OF example_packed_forward] example_packed_forward
  by auto

theorem C1_truncated_previous_hidden_witness:
  "list_all (\<lambda>b. 0 \<le> b) (ps_batch_sizes example_packed) \<and>
   sum_list (ps_batch_sizes example_packed) \<le> int (nrows (data (ps_data example_packed))) \<and>
   (0 :: nat) < 2 \<and> 2 < length (ps_batch_sizes example_packed) \<and>
   wf_packed example_packed \<and> hidden0_fits example_packed None \<and>
   keeps_batch (example_rnn ''relu'') \<and>
   (\<exists>st h y. recurrence (example_rnn ''relu'')
              (segments (ps_data example_packed) 0 (ps_batch_sizes example_packed)) None = Inr st \<and>
      hidden_states st ! (2 - 1) = Filled h \<and>
      unit_calls st ! 2 =
        (segments (ps_data example_packed) 0 (ps_batch_sizes example_packed) ! 2,
         Some (getitem_slice h 0 (ps_batch_sizes example_packed ! 2))) \<and>
      example_rnn ''relu'' (segments (ps_data example_packed) 0 (ps_batch_sizes example_packed) ! 2)
         (Some (getitem_slice h 0 (ps_batch_sizes example_packed ! 2))) = Inr y \<and>
      hidden_states st ! 2 = Filled y \<and>
      rows (data (getitem_slice h 0 (ps_batch_sizes example_packed ! 2))) =
        take (nat (ps_batch_sizes example_packed ! 2)) (rows (data h)) \<and>
      nrows (data (getitem_slice h 0 (ps_batch_sizes example_packed ! 2))) =
        nat (ps_batch_sizes example_packed ! 2))"
proof -
  have nn: "list_all (\<lambda>b. 0 \<le> b) (ps_batch_sizes example_packed)"
    by (simp add: example_packed_def)
  have le: "sum_list (ps_batch_sizes example_packed) \<le> int (nrows (data (ps_data example_packed)))"
    by (simp add: example_packed_def example_data_def Tensor_init_def nrows_def)
  have t: "(0 :: nat) < 2" "2 < length (ps_batch_sizes example_packed)"
    by (simp_all add: example_packed_def)
  have fits: "hidden0_fits example_packed None"
    by (simp add: hidden0_fits_def)
  have keeps: "keeps_batch (example_rnn ''relu'')"
    unfolding example_rnn_def by (rule RNNUnit_keeps_batch)
  from C1_truncated_previous_hidden [OF example_packed_forward nn le t]
  show ?thesis
    using nn le t wf_example_packed fits keeps by blast
qed

theorem C2_final_hidden_witness:
  "TimeIterator_forward (example_rnn ''relu'') example_packed None =
     Inr (\<lparr>ps_data = \<lparr>data = \<lparr>ncols = 1,
                rows = [[1], [2], [3], [5], [7], [9], [12], [15], [21]]\<rparr>,
              grad = None, requires_grad = True, is_parameter = False\<rparr>,
            ps_sorted_indices = [0, 1, 2], ps_batch_sizes = [3, 3, 2, 1]\<rparr>,
          \<lparr>data = \<lparr>ncols = 1, rows = [[21], [15], [9]]\<rparr>, grad = None,
            requires_grad = True, is_parameter = False\<rparr>) \<and>
   wf_packed example_packed \<and> hidden0_fits example_packed None \<and>
   keeps_batch (example_rnn ''relu'') \<and>
   final_order (ps_batch_sizes example_packed) = [3, 2, 1] \<and>
   (\<exists>hs. final_hidden_spec hs (ps_batch_sizes example_packed) =
            Inr \<lparr>data = \<lparr>ncols = 1, rows = [[21], [15], [9]]\<rparr>, grad = None,
                 requires_grad = True, is_parameter = False\<rparr> \<and>
      map (\<lambda>t. last (rows (data (hs ! t)))) (final_order (ps_batch_sizes example_packed)) =
        [[21], [15], [9]] \<and>
      sorted_wrt (\<lambda>a b. b < a)
        (map (\<lambda>t. seq_length (ps_batch_sizes example_packed)
                     (nat (ps_batch_sizes example_packed ! t) - 1))
           (final_order (ps_batch_sizes example_packed))))"
proof -
  have fits: "hidden0_fits example_packed None"
    by (simp add: hidden0_fits_def)
  have keeps: "keeps_batch (example_rnn ''relu'')"
    unfolding example_rnn_def by (rule RNNUnit_keeps_batch)
  have ord: "final_order (ps_batch_sizes example_packed) = [3, 2, 1]"
    by (simp add: example_packed_def final_order_example)
  from C2_final_hidden [OF example_packed_forward]
  obtain st hs where
    "final_hidden_spec hs (ps_batch_sizes example_packed) =
            Inr \<lparr>data = \<lparr>ncols = 1, rows = [[21], [15], [9]]\<rparr>, grad = None,
                 requires_grad = True, is_parameter = False\<rparr>"
    "rows (data \<lparr>data = \<lparr>ncols = 1, rows = [[21], [15], [9 :: real]]\<rparr>, grad = None,
                 requires_grad = True, is_parameter = False\<rparr>) =
       map (\<lambda>t. last (rows (data (hs ! t)))) (final_order (ps_batch_sizes example_packed))"
    "wf_packed example_packed \<and> hidden0_fits example_packed None \<and>
       keeps_batch (example_rnn ''relu'') \<longrightarrow>
     sorted_wrt (\<lambda>a b. b < a)
        (map (\<lambda>t. seq_length (ps_batch_sizes example_packed)
                     (nat (ps_batch_sizes example_packed ! t) - 1))
           (final_order (ps_batch_sizes example_packed)))"
    by blast
  then have "final_hidden_spec hs (ps_batch_sizes example_packed) =
            Inr \<lparr>data = \<lparr>ncols = 1, rows = [[21], [15], [9]]\<rparr>, grad = None,
                 requires_grad = True, is_parameter = False\<rparr> \<and>
      map (\<lambda>t. last (rows (data (hs ! t)))) (final_order (ps_batch_sizes example_packed)) =
        [[21], [15], [9]] \<and>
      sorted_wrt (\<lambda>a b. b < a)
        (map (\<lambda>t. seq_length (ps_batch_sizes example_packed)
                     (nat (ps_batch_sizes example_packed ! t) - 1))
           (final_order (ps_batch_sizes example_packed)))"
    using wf_example_packed fits keeps by simp
  then have ex: "\<exists>hs. final_hidden_spec hs (ps_batch_sizes example_packed) =
            Inr \<lparr>data = \<lparr>ncols = 1, rows = [[21], [15], [9]]\<rparr>, grad = None,
                 requires_grad = True, is_parameter = False\<rparr> \<and>
      map (\<lambda>t. last (rows (data (hs ! t)))) (final_order (ps_batch_sizes example_packed)) =
        [[21], [15], [9]] \<and>
      sorted_wrt (\<lambda>a b. b < a)
        (map (\<lambda>t. seq_length (ps_batch_sizes example_packed)
                     (nat (ps_batch_sizes example_packed ! t) - 1))
           (final_order (ps_batch_sizes example_packed)))"
    by (rule exI)
  show ?thesis
    by (intro conjI example_packed_forward wf_example_packed fits keeps ord ex)
qed


subsection \<open>The iterator returns on well-formed input\<close>

text \<open>
  With an \<^verbatim>\<open>RNNUnit\<close> whose parameters have the shapes of the constructor and whose
  activation is set, \<^verbatim>\<open>TimeIterator.forward\<close> returns on every well-formed packed
  input whose data has \<open>input_size\<close> columns, with no initial hidden state or one of
  shape \<open>[batch_sizes[0], hidden_size]\<close>.
\<close>

lemma RNNUnit_call_returns:
  assumes shapes: "param_shapes u (ncols (data x))"
    and a: "act u = Some f"
    and h: "case hidden of None \<Rightarrow> True
            | Some h \<Rightarrow> nrows (data h) = nrows (data x) \<and> ncols (data h) = hidden_size u"
  shows "\<exists>y. RNNUnit_as_unit tensor_bool u x hidden = Inr y \<and>
           nrows (data y) = nrows (data x) \<and> ncols (data y) = hidden_size u"
proof -
  let ?r = "resolve_hidden tensor_bool u x hidden"
  have sh: "nrows (data ?r) = nrows (data x)" "ncols (data ?r) = hidden_size u"
    by (rule resolve_hidden_shape [OF h, THEN conjunct1],
        rule resolve_hidden_shape [OF h, THEN conjunct2])
  from weighted_sum_data [OF shapes sh]
  obtain pre where pre: "weighted_sum u x ?r = Inr pre"
    "data pre = \<lparr>ncols = hidden_size u,
        rows = map (\<lambda>i. map (\<lambda>j. affine (data x) (data (weight_ih u)) (data (bias_ih u)) i j
                               + affine (data ?r) (data (weight_hh u)) (data (bias_hh u)) i j)
                        [0..<hidden_size u]) [0..<nrows (data x)]\<rparr>"
    by blast
  have "RNNUnit_as_unit tensor_bool u x hidden = Inr (apply_act f pre)"
    by (simp add: RNNUnit_as_unit_def RNNUnit_forward_def pre(1) a)
  moreover have "nrows (data (apply_act f pre)) = nrows (data x)"
    "ncols (data (apply_act f pre)) = hidden_size u"
    using rect_apply_act_rows [OF pre(2), of f] by simp_all
  ultimately show ?thesis by blast
qed

lemma segments_ncols:
  "t < length bs \<Longrightarrow> ncols (data (segments d start bs ! t)) = ncols (data d)"
  by (simp add: segments_nth getitem_slice_def op_result_def)

lemma RNN_steps_exist:
  assumes wf: "wf_packed input"
    and shapes: "param_shapes u (ncols (data (ps_data input)))"
    and a: "act u = Some f"
    and hid: "case hidden of None \<Rightarrow> True
              | Some h \<Rightarrow> int (nrows (data h)) = hd (ps_batch_sizes input) \<and>
                          ncols (data h) = hidden_size u"
    and k: "k \<le> length (ps_batch_sizes input)"
  shows "\<exists>hs. length hs = k \<and>
           (\<forall>i<k. RNNUnit_as_unit tensor_bool u (segments (ps_data input) 0 (ps_batch_sizes input) ! i)
                     (prev_hidden hidden (segments (ps_data input) 0 (ps_batch_sizes input)) hs i)
                   = Inr (hs ! i) \<and>
                  nrows (data (hs ! i)) = nat (ps_batch_sizes input ! i) \<and>
                  ncols (data (hs ! i)) = hidden_size u)"
  using k
proof (induction k)
  case 0
  show ?case by simp
next
  case (Suc k)
  let ?bs = "ps_batch_sizes input"
  let ?X = "segments (ps_data input) 0 ?bs"
  let ?unit = "RNNUnit_as_unit tensor_bool u"
  from Suc obtain hs where hs: "length hs = k"
    "\<forall>i<k. ?unit (?X ! i) (prev_hidden hidden ?X hs i) = Inr (hs ! i) \<and>
            nrows (data (hs ! i)) = nat (?bs ! i) \<and> ncols (data (hs ! i)) = hidden_size u"
    by auto
  have kl: "k < length ?bs" using Suc.prems by simp
  have nn: "list_all (\<lambda>b. 0 \<le> b) ?bs"
    using wf by (auto simp: wf_packed_def list_all_iff intro: less_imp_le)
  have le: "sum_list ?bs \<le> int (nrows (data (ps_data input)))"
    using wf by (simp add: wf_packed_def)
  have sx: "shape0 (?X ! k) = ?bs ! k"
    using segments_rows(2) [OF nn le kl] .
  then have nx: "nrows (data (?X ! k)) = nat (?bs ! k)"
    by (simp add: shape0_def)
  have cx: "ncols (data (?X ! k)) = ncols (data (ps_data input))"
    using kl by (rule segments_ncols)
  have b0: "0 \<le> ?bs ! k"
    using nn kl by (simp add: list_all_length)
  have p: "case prev_hidden hidden ?X hs k of None \<Rightarrow> True
           | Some h \<Rightarrow> nrows (data h) = nrows (data (?X ! k)) \<and> ncols (data h) = hidden_size u"
  proof (cases k)
    case 0
    have "?bs \<noteq> []" using kl by auto
    then have "hd ?bs = ?bs ! 0" by (rule hd_conv_nth)
    with hid nx 0 show ?thesis
      by (auto simp: prev_hidden_def split: option.splits)
  next
    case (Suc j)
    then have j: "j < k" by simp
    have hj: "nrows (data (hs ! j)) = nat (?bs ! j)" "ncols (data (hs ! j)) = hidden_size u"
      using hs(2) j by simp_all
    have mono: "?bs ! k \<le> ?bs ! j"
      using wf kl j by (intro nonincreasing_nth) (simp_all add: wf_packed_def)
    have "nrows (data (getitem_slice (hs ! j) 0 (?bs ! k))) = nat (?bs ! k)"
      using hj(1) mono b0 by (simp add: getitem_slice_prefix_rows nrows_def)
    moreover have "ncols (data (getitem_slice (hs ! j) 0 (?bs ! k))) = hidden_size u"
      using hj(2) by (simp add: getitem_slice_def op_result_def)
    ultimately have "nrows (data (getitem_slice (hs ! j) 0 (shape0 (?X ! k)))) = nrows (data (?X ! k)) \<and>
        ncols (data (getitem_slice (hs ! j) 0 (shape0 (?X ! k)))) = hidden_size u"
      by (simp add: sx nx)
    moreover have "prev_hidden hidden ?X hs k = Some (getitem_slice (hs ! j) 0 (shape0 (?X ! k)))"
      by (simp add: prev_hidden_def Suc)
    ultimately show ?thesis
      by simp
  qed
  have "param_shapes u (ncols (data (?X ! k)))"
    using shapes cx by simp
  from RNNUnit_call_returns [OF this a p, of tensor_bool]
  obtain y where y: "?unit (?X ! k) (prev_hidden hidden ?X hs k) = Inr y"
    "nrows (data y) = nrows (data (?X ! k))" "ncols (data y) = hidden_size u"
    by blast
  have "?unit (?X ! i) (prev_hidden hidden ?X (hs @ [y]) i) = Inr ((hs @ [y]) ! i) \<and>
            nrows (data ((hs @ [y]) ! i)) = nat (?bs ! i) \<and>
            ncols (data ((hs @ [y]) ! i)) = hidden_size u"
    if "i < Suc k" for i
  proof (cases "i = k")
    case True
    then show ?thesis
      using y nx hs(1) by (simp add: prev_hidden_append nth_append)
  next
    case False
    with that have "i < k" by simp
    then show ?thesis
      using hs by (simp add: prev_hidden_append nth_append)
  qed
  then show ?case
    using hs(1) by (intro exI [of _ "hs @ [y]"]) simp
qed

lemma RNN_forward_returns:
  assumes wf: "wf_packed input"
    and shapes: "param_shapes u (ncols (data (ps_data input)))"
    and a: "act u = Some f"
    and hid: "case hidden of None \<Rightarrow> True
              | Some h \<Rightarrow> int (nrows (data h)) = hd (ps_batch_sizes input) \<and>
                          ncols (data h) = hidden_size u"
  shows "\<exists>ps fh. TimeIterator_forward (RNNUnit_as_unit tensor_bool u) input hidden = Inr (ps, fh)"
proof -
  let ?bs = "ps_batch_sizes input"
  let ?X = "segments (ps_data input) 0 ?bs"
  let ?unit = "RNNUnit_as_unit tensor_bool u"
  from RNN_steps_exist [OF wf shapes a hid order_refl, of tensor_bool]
  obtain hs where hs: "length hs = length ?bs"
    "\<forall>i<length ?bs. ?unit (?X ! i) (prev_hidden hidden ?X hs i) = Inr (hs ! i) \<and>
            nrows (data (hs ! i)) = nat (?bs ! i) \<and> ncols (data (hs ! i)) = hidden_size u"
    by blast
  have ne: "?bs \<noteq> []" and pos: "list_all (\<lambda>b. 0 < b) ?bs"
    using wf by (simp_all add: wf_packed_def)
  have steps: "length hs = length ?bs \<and>
     (\<forall>i<length ?bs. ?unit (?X ! i) (prev_hidden hidden ?X hs i) = Inr (hs ! i) \<and>
            rows (data (hs ! i)) \<noteq> [] \<and> ncols (data (hs ! i)) = hidden_size u)"
  proof (intro conjI allI impI)
    fix i assume i: "i < length ?bs"
    then have "0 < ?bs ! i" using pos by (simp add: list_all_length)
    moreover have "nrows (data (hs ! i)) = nat (?bs ! i)" using hs(2) i by simp
    ultimately show "rows (data (hs ! i)) \<noteq> []" by (auto simp: nrows_def)
  qed (use hs in simp_all)
  have lenX: "length hs = length ?X" using hs(1) by simp
  have steps': "\<forall>i<length ?X. ?unit (?X ! i) (prev_hidden hidden ?X hs i) = Inr (hs ! i) \<and>
               rows (data (hs ! i)) \<noteq> []"
    using steps by simp
  have rec: "recurrence ?unit ?X hidden = Inr (state_after hidden ?X hs (length ?bs))"
    using recurrence_complete [OF lenX steps'] by simp
  have cols: "list_all (\<lambda>h. ncols (data h) = hidden_size u) hs"
    using steps by (simp add: list_all_length)
  have "hs \<noteq> []" using hs(1) ne by auto
  from cat_succeeds [OF this cols] obtain out where out: "cat hs = Inr out" by blast
  have "map (\<lambda>t. exit_hidden (hs ! t)) (final_order ?bs) \<noteq> []"
    using final_order_nonempty [OF ne] by simp
  from cat_succeeds [OF this list_all_ncols_final [OF hs(1) cols]]
  obtain fh where fh: "final_hidden_spec hs ?bs = Inr fh"
    unfolding final_hidden_spec_def by blast
  from forward_complete [OF rec hs(1) out fh] show ?thesis by blast
qed

section \<open>The optimizer\<close>

lemma nd_binop_same_shape:
  "shape a = shape b \<Longrightarrow>
   nd_binop f a b = Inr \<lparr>shape = shape a, elems = map2 f (elems a) (elems b)\<rparr>"
  by (simp add: nd_binop_def)

lemma map2_scaled:
  "map2 (\<lambda>u v. u - v) (map (\<lambda>v. c * v) xs) (map (\<lambda>v. d * v) ys) =
   map2 (\<lambda>m g. c * m - d * (g :: real)) xs ys"
  by (simp add: zip_map_map split_def)

lemma velocity_update:
  assumes "shape m = shape g"
  shows "nd_sub (scalar_mul mu m) (scalar_mul eta g) =
           Inr \<lparr>shape = shape m, elems = map2 (\<lambda>m g. mu * m - eta * g) (elems m) (elems g)\<rparr>"
  using assms by (simp add: nd_sub_def nd_binop_same_shape scalar_mul_def map2_scaled)

lemma plain_descent:
  assumes "length ms = length ds" "length gs = length ds"
  shows "map2 (\<lambda>p v. p + v) ds (map2 (\<lambda>m g. 0 * m - eta * g) ms gs) =
         map2 (\<lambda>p g. p - eta * (g :: real)) ds gs"
  using assms
proof (induction ds arbitrary: ms gs)
  case Nil
  then show ?case by simp
next
  case (Cons d ds)
  then obtain m ms' g gs' where "ms = m # ms'" "gs = g # gs'"
    by (metis length_Suc_conv)
  with Cons show ?case by simp
qed

lemma step_body_ready:
  assumes len: "idx < length (momentums self)"
    and g: "grad (h (params self ! idx)) = Some g"
    and sg: "shape g = shape (data (h (params self ! idx)))"
    and sm: "shape (momentums self ! idx) = shape (data (h (params self ! idx)))"
  shows "step_body idx (h, self) =
     Inr (h(params self ! idx := (h (params self ! idx))
            \<lparr>data := \<lparr>shape = shape (data (h (params self ! idx))),
                      elems = map2 (\<lambda>p v. p + v) (elems (data (h (params self ! idx))))
                                (map2 (\<lambda>m g. momentum self * m - lr self * g)
                                   (elems (momentums self ! idx)) (elems g))\<rparr>\<rparr>),
          self\<lparr>momentums := (momentums self)
            [idx := \<lparr>shape = shape (data (h (params self ! idx))),
                     elems = map2 (\<lambda>m g. momentum self * m - lr self * g)
                               (elems (momentums self ! idx)) (elems g)\<rparr>]\<rparr>)"
proof -
  have v: "nd_sub (scalar_mul (momentum self) (momentums self ! idx)) (scalar_mul (lr self) g) =
      Inr \<lparr>shape = shape (data (h (params self ! idx))),
           elems = map2 (\<lambda>m g. momentum self * m - lr self * g)
                     (elems (momentums self ! idx)) (elems g)\<rparr>"
    using velocity_update [of "momentums self ! idx" g] sg sm by simp
  show ?thesis
    using len
    by (simp add: step_body_def Let_def g v nd_add_def nd_binop_same_shape)
qed

lemma param_readyD:
  assumes "step_ready h self" "i < length (params self)"
  shows "\<exists>g. grad (h (params self ! i)) = Some g \<and> wf_ndarray g \<and>
           wf_ndarray (data (h (params self ! i))) \<and> wf_ndarray (momentums self ! i) \<and>
           shape g = shape (data (h (params self ! i))) \<and>
           shape (momentums self ! i) = shape (data (h (params self ! i)))"
proof -
  from assms have "param_ready h self i"
    by (simp add: step_ready_def list_all_iff)
  then show ?thesis
    by (auto simp: param_ready_def split: option.splits)
qed

lemma step_inv_step:
  assumes ready: "step_ready h0 self0"
    and k: "k < length (params self0)"
    and inv: "step_inv h0 self0 k hs"
  shows "\<exists>hs'. step_body k hs = Inr hs' \<and> step_inv h0 self0 (Suc k) hs'"
proof -
  obtain h self where hs: "hs = (h, self)" by (cases hs)
  let ?n = "length (params self0)"
  let ?p = "params self0 ! k"
  from inv have st: "params self = params self0" "lr self = lr self0"
    "momentum self = momentum self0" "length (momentums self) = ?n"
    and el: "\<And>i. i < ?n \<Longrightarrow>
          momentums self ! i = (if i < k then new_velocity h0 self0 i else momentums self0 ! i) \<and>
          h (params self0 ! i) =
            (if i < k then (h0 (params self0 ! i))\<lparr>data := new_data h0 self0 i\<rparr>
             else h0 (params self0 ! i))"
    and fr: "\<And>a. a \<notin> set (params self0) \<Longrightarrow> h a = h0 a"
    by (simp_all add: step_inv_def hs)
  from param_readyD [OF ready k] obtain g where
    g: "grad (h0 ?p) = Some g" "shape g = shape (data (h0 ?p))"
       "shape (momentums self0 ! k) = shape (data (h0 ?p))"
    by blast
  have cur: "momentums self ! k = momentums self0 ! k" "h ?p = h0 ?p"
    using el [OF k] by simp_all
  have dist: "distinct (params self0)"
    using ready by (simp add: step_ready_def)
  have nv: "\<lparr>shape = shape (data (h0 ?p)),
             elems = map2 (\<lambda>m g. momentum self0 * m - lr self0 * g)
                       (elems (momentums self0 ! k)) (elems g)\<rparr> = new_velocity h0 self0 k"
    by (simp add: new_velocity_def g(1))
  have nd: "\<lparr>shape = shape (data (h0 ?p)),
             elems = map2 (\<lambda>p v. p + v) (elems (data (h0 ?p)))
                       (map2 (\<lambda>m g. momentum self0 * m - lr self0 * g)
                          (elems (momentums self0 ! k)) (elems g))\<rparr> = new_data h0 self0 k"
    by (simp add: new_data_def new_velocity_def g(1))
  let ?h' = "h(?p := (h0 ?p)\<lparr>data := new_data h0 self0 k\<rparr>)"
  let ?self' = "self\<lparr>momentums := (momentums self)[k := new_velocity h0 self0 k]\<rparr>"
  have body: "step_body k (h, self) = Inr (?h', ?self')"
    using step_body_ready [of k self h g] k g cur st nv nd by simp
  have "step_inv h0 self0 (Suc k) (?h', ?self')"
    unfolding step_inv_def
  proof (intro conjI allI impI)
    fix i assume i: "i < ?n"
    show "momentums (snd (?h', ?self')) ! i =
            (if i < Suc k then new_velocity h0 self0 i else momentums self0 ! i)"
      using el [OF i] k st(4) by (cases "i = k") (auto simp: less_Suc_eq)
    show "fst (?h', ?self') (params self0 ! i) =
            (if i < Suc k then (h0 (params self0 ! i))\<lparr>data := new_data h0 self0 i\<rparr>
             else h0 (params self0 ! i))"
    proof (cases "i = k")
      case True
      then show ?thesis by simp
    next
      case False
      then have "params self0 ! i \<noteq> ?p"
        using dist i k by (simp add: nth_eq_iff_index_eq)
      then show ?thesis
        using el [OF i] False by (auto simp: less_Suc_eq)
    qed
  next
    fix a assume a: "a \<notin> set (params self0)"
    then have "a \<noteq> ?p" using k by auto
    then show "fst (?h', ?self') a = h0 a"
      using fr [OF a] by simp
  qed (simp_all add: st)
  with body show ?thesis
    unfolding hs by blast
qed

lemma step_loop_inv:
  assumes ready: "step_ready h0 self0"
    and k: "k \<le> length (params self0)"
    and inv: "step_inv h0 self0 k hs"
  shows "\<exists>hs'. step_loop [k..<length (params self0)] hs = Inr hs' \<and>
           step_inv h0 self0 (length (params self0)) hs'"
  using k inv
proof (induction "length (params self0) - k" arbitrary: k hs)
  case 0
  then show ?case by simp
next
  case (Suc m)
  then have lt: "k < length (params self0)" by simp
  then have up: "[k..<length (params self0)] = k # [Suc k..<length (params self0)]"
    by (simp add: upt_rec)
  from step_inv_step [OF ready lt Suc.prems(2)]
  obtain hs1 where 1: "step_body k hs = Inr hs1" "step_inv h0 self0 (Suc k) hs1"
    by blast
  have m: "m = length (params self0) - Suc k" using Suc.hyps(2) by simp
  have le: "Suc k \<le> length (params self0)" using lt by simp
  from Suc.hyps(1) [OF m le 1(2)]
  obtain hs' where "step_loop [Suc k..<length (params self0)] hs1 = Inr hs'"
    "step_inv h0 self0 (length (params self0)) hs'"
    by blast
  then show ?case
    unfolding up by (simp add: 1(1))
qed

lemma step_inv_initial: "length (momentums self) = length (params self) \<Longrightarrow> step_inv h self 0 (h, self)"
  by (simp add: step_inv_def)

text \<open>
  C10: for distinct parameters, one velocity for each parameter, and every parameter
  with a gradient, where the value, the gradient and the velocity of a parameter have
  one shape, \<^verbatim>\<open>SGD.step\<close> returns; for every parameter index \<open>i\<close> the new velocity is
  \<open>momentum * momentums[i] - lr * params[i].grad.data\<close> and the new value is the old
  value plus the new velocity; with momentum 0 the new value is the old value minus
  \<open>lr\<close> times the gradient.  The shapes, the gradients and the rest of the store are
  unchanged, and the optimizer is ready for the next step.
\<close>

theorem C10_sgd_step:
  assumes ready: "step_ready h self"
  shows "\<exists>h' self'. SGD_step (h, self) = Inr (h', self') \<and>
           params self' = params self \<and> lr self' = lr self \<and> momentum self' = momentum self \<and>
           length (momentums self') = length (params self) \<and>
           (\<forall>i<length (params self). \<exists>g.
               grad (h (params self ! i)) = Some g \<and>
               nd_sub (scalar_mul (momentum self) (momentums self ! i)) (scalar_mul (lr self) g)
                 = Inr (momentums self' ! i) \<and>
               elems (momentums self' ! i) =
                 map2 (\<lambda>m g. momentum self * m - lr self * g) (elems (momentums self ! i)) (elems g) \<and>
               nd_add (data (h (params self ! i))) (momentums self' ! i)
                 = Inr (data (h' (params self ! i))) \<and>
               elems (data (h' (params self ! i))) =
                 map2 (\<lambda>p v. p + v) (elems (data (h (params self ! i)))) (elems (momentums self' ! i)) \<and>
               shape (data (h' (params self ! i))) = shape (data (h (params self ! i))) \<and>
               grad (h' (params self ! i)) = grad (h (params self ! i)) \<and>
               (momentum self = 0 \<longrightarrow>
                  elems (data (h' (params self ! i))) =
                    map2 (\<lambda>p g. p - lr self * g) (elems (data (h (params self ! i)))) (elems g))) \<and>
           (\<forall>a. a \<notin> set (params self) \<longrightarrow> h' a = h a) \<and>
           step_ready h' self'"
proof -
  let ?n = "length (params self)"
  have len: "length (momentums self) = ?n"
    using ready by (simp add: step_ready_def)
  from step_loop_inv [OF ready _ step_inv_initial [OF len]]
  obtain hs' where run: "step_loop [0..<?n] (h, self) = Inr hs'" and inv: "step_inv h self ?n hs'"
    by auto
  obtain h' self' where hs': "hs' = (h', self')" by (cases hs')
  from inv have st: "params self' = params self" "lr self' = lr self"
    "momentum self' = momentum self" "length (momentums self') = ?n"
    and el: "\<And>i. i < ?n \<Longrightarrow> momentums self' ! i = new_velocity h self i \<and>
          h' (params self ! i) = (h (params self ! i))\<lparr>data := new_data h self i\<rparr>"
    and fr: "\<forall>a. a \<notin> set (params self) \<longrightarrow> h' a = h a"
    by (simp_all add: step_inv_def hs')
  have step: "SGD_step (h, self) = Inr (h', self')"
    using run by (simp add: SGD_step_def hs')
  have each: "\<exists>g. grad (h (params self ! i)) = Some g \<and>
               nd_sub (scalar_mul (momentum self) (momentums self ! i)) (scalar_mul (lr self) g)
                 = Inr (momentums self' ! i) \<and>
               elems (momentums self' ! i) =
                 map2 (\<lambda>m g. momentum self * m - lr self * g) (elems (momentums self ! i)) (elems g) \<and>
               nd_add (data (h (params self ! i))) (momentums self' ! i)
                 = Inr (data (h' (params self ! i))) \<and>
               elems (data (h' (params self ! i))) =
                 map2 (\<lambda>p v. p + v) (elems (data (h (params self ! i)))) (elems (momentums self' ! i)) \<and>
               shape (data (h' (params self ! i))) = shape (data (h (params self ! i))) \<and>
               grad (h' (params self ! i)) = grad (h (params self ! i)) \<and>
               (momentum self = 0 \<longrightarrow>
                  elems (data (h' (params self ! i))) =
                    map2 (\<lambda>p g. p - lr self * g) (elems (data (h (params self ! i)))) (elems g))"
    if i: "i < ?n" for i
  proof -
    let ?p = "params self ! i"
    from param_readyD [OF ready i] obtain g where
      g: "grad (h ?p) = Some g" "wf_ndarray g" "wf_ndarray (data (h ?p))"
         "wf_ndarray (momentums self ! i)"
         "shape g = shape (data (h ?p))" "shape (momentums self ! i) = shape (data (h ?p))"
      by blast
    have m': "momentums self' ! i = new_velocity h self i"
      and d': "h' ?p = (h ?p)\<lparr>data := new_data h self i\<rparr>"
      using el [OF i] by simp_all
    have nv: "new_velocity h self i = \<lparr>shape = shape (momentums self ! i),
        elems = map2 (\<lambda>m g. momentum self * m - lr self * g) (elems (momentums self ! i)) (elems g)\<rparr>"
      by (simp add: new_velocity_def g(1) g(6))
    have 1: "nd_sub (scalar_mul (momentum self) (momentums self ! i)) (scalar_mul (lr self) g)
                 = Inr (momentums self' ! i)"
      using velocity_update [of "momentums self ! i" g] g(5,6) by (simp add: m' nv)
    have 2: "elems (momentums self' ! i) =
        map2 (\<lambda>m g. momentum self * m - lr self * g) (elems (momentums self ! i)) (elems g)"
      by (simp add: m' nv)
    have 3: "nd_add (data (h ?p)) (momentums self' ! i) = Inr (data (h' ?p))"
      by (simp add: nd_add_def nd_binop_same_shape m' d' nv g(6) new_data_def new_velocity_def g(1))
    have 4: "elems (data (h' ?p)) =
        map2 (\<lambda>p v. p + v) (elems (data (h ?p))) (elems (momentums self' ! i))"
      by (simp add: d' m' new_data_def)
    have 5: "shape (data (h' ?p)) = shape (data (h ?p))" "grad (h' ?p) = grad (h ?p)"
      by (simp_all add: d' new_data_def)
    have lens: "length (elems (momentums self ! i)) = length (elems (data (h ?p)))"
      "length (elems g) = length (elems (data (h ?p)))"
      using g(2-6) by (simp_all add: wf_ndarray_def)
    have 6: "elems (data (h' ?p)) = map2 (\<lambda>p g. p - lr self * g) (elems (data (h ?p))) (elems g)"
      if "momentum self = 0"
      using plain_descent [OF lens, of "lr self"] that by (simp add: 4 2)
    from g(1) 1 2 3 4 5 6 show ?thesis by blast
  qed
  have ready': "step_ready h' self'"
    unfolding step_ready_def
  proof (intro conjI)
    show "distinct (params self')" using ready st by (simp add: step_ready_def)
    show "length (momentums self') = length (params self')" using st by simp
    show "list_all (param_ready h' self') [0..<length (params self')]"
      unfolding list_all_iff
    proof
      fix i assume "i \<in> set [0..<length (params self')]"
      then have i: "i < ?n" using st by simp
      let ?p = "params self ! i"
      from param_readyD [OF ready i] obtain g where
        g: "grad (h ?p) = Some g" "wf_ndarray g" "wf_ndarray (data (h ?p))"
           "wf_ndarray (momentums self ! i)"
           "shape g = shape (data (h ?p))" "shape (momentums self ! i) = shape (data (h ?p))"
        by blast
      have lens: "length (elems (momentums self ! i)) = prod_list (shape (data (h ?p)))"
        "length (elems g) = prod_list (shape (data (h ?p)))"
        "length (elems (data (h ?p))) = prod_list (shape (data (h ?p)))"
        using g(2-6) by (simp_all add: wf_ndarray_def)
      show "param_ready h' self' i"
        using el [OF i] g(1,2,5) lens
        by (simp add: param_ready_def st new_data_def new_velocity_def wf_ndarray_def)
    qed
  qed
  from step st each fr ready' show ?thesis by blast
qed

lemma step_ready_init:
  assumes "distinct ps"
    and "list_all (\<lambda>p. case grad (h p) of None \<Rightarrow> False
            | Some g \<Rightarrow> wf_ndarray g \<and> wf_ndarray (data (h p)) \<and> shape g = shape (data (h p))) ps"
  shows "step_ready h (SGD_init h ps eta beta)"
  using assms
  by (auto simp: step_ready_def SGD_init_def list_all_iff param_ready_def nd_zeros_def wf_ndarray_def
      split: option.splits)

theorem C10_sgd_step_witness:
  "step_ready example_store (SGD_init example_store [0, 1] (1 / 2) 0) \<and>
   (\<exists>h' self'. SGD_step (example_store, SGD_init example_store [0, 1] (1 / 2) 0) = Inr (h', self') \<and>
      momentums self' = [\<lparr>shape = [2, 2], elems = [- (1 / 2), - (1 / 2), - (1 / 2), - (1 / 2)]\<rparr>,
                         \<lparr>shape = [2], elems = [- 1, - 2]\<rparr>] \<and>
      data (h' 0) = \<lparr>shape = [2, 2], elems = [1 / 2, 3 / 2, 5 / 2, 7 / 2]\<rparr> \<and>
      data (h' 1) = \<lparr>shape = [2], elems = [4, 4]\<rparr>)"
proof -
  let ?s = "SGD_init example_store [0, 1] (1 / 2) 0"
  have ready: "step_ready example_store ?s"
    by (rule step_ready_init) (simp_all add: example_store_def wf_ndarray_def)
  from C10_sgd_step [OF ready] obtain h' self' where
    r: "SGD_step (example_store, ?s) = Inr (h', self')" by blast
  have v: "SGD_step (example_store, ?s) =
     Inr (example_store
            (0 := (example_store 0)\<lparr>data := \<lparr>shape = [2, 2], elems = [1 / 2, 3 / 2, 5 / 2, 7 / 2]\<rparr>\<rparr>,
             1 := (example_store 1)\<lparr>data := \<lparr>shape = [2], elems = [4, 4]\<rparr>\<rparr>),
          ?s\<lparr>momentums := [\<lparr>shape = [2, 2], elems = [- (1 / 2), - (1 / 2), - (1 / 2), - (1 / 2)]\<rparr>,
                         \<lparr>shape = [2], elems = [- 1, - 2]\<rparr>]\<rparr>)"
    by (simp add: SGD_step_def SGD_init_def step_body_def example_store_def nd_sub_def nd_add_def
        nd_binop_def scalar_mul_def nd_zeros_def upt_rec Let_def fun_upd_def eval_nat_numeral)
  from r v have "momentums self' = [\<lparr>shape = [2, 2], elems = [- (1 / 2), - (1 / 2), - (1 / 2), - (1 / 2)]\<rparr>,
                         \<lparr>shape = [2], elems = [- 1, - 2]\<rparr>] \<and>
      data (h' 0) = \<lparr>shape = [2, 2], elems = [1 / 2, 3 / 2, 5 / 2, 7 / 2]\<rparr> \<and>
      data (h' 1) = \<lparr>shape = [2], elems = [4, 4]\<rparr>"
    by auto
  with r ready show ?thesis by blast
qed

theorem C10_missing_gradient_counterexample:
  "SGD_step (store_without_grad, SGD_init store_without_grad [0, 1] (1 / 2) 0) = Inl AttributeError \<and>
   SGD_step (store_wide_grad, SGD_init store_wide_grad [0] (1 / 2) 0) =
     Inr (store_wide_grad
            (0 := (store_wide_grad 0)\<lparr>data := \<lparr>shape = [2, 2], elems = [9 / 2, 5, 7 / 2, 4]\<rparr>\<rparr>),
          \<lparr>params = [0], lr = 1 / 2, momentum = 0,
            momentums = [\<lparr>shape = [2, 2], elems = [- (1 / 2), - 1, - (3 / 2), - 2]\<rparr>]\<rparr>) \<and>
   shape (data (store_wide_grad 0)) = [2] \<and>
   shape \<lparr>shape = [2, 2], elems = [9 / 2, 5, 7 / 2, 4 :: real]\<rparr> \<noteq> shape (data (store_wide_grad 0))"
proof -
  have 1: "SGD_step (store_without_grad, SGD_init store_without_grad [0, 1] (1 / 2) 0)
             = Inl AttributeError"
    by (simp add: SGD_step_def SGD_init_def step_body_def store_without_grad_def nd_sub_def
        nd_add_def nd_binop_def scalar_mul_def nd_zeros_def upt_rec Let_def eval_nat_numeral)
  have 2: "SGD_step (store_wide_grad, SGD_init store_wide_grad [0] (1 / 2) 0) =
     Inr (store_wide_grad
            (0 := (store_wide_grad 0)\<lparr>data := \<lparr>shape = [2, 2], elems = [9 / 2, 5, 7 / 2, 4]\<rparr>\<rparr>),
          \<lparr>params = [0], lr = 1 / 2, momentum = 0,
            momentums = [\<lparr>shape = [2, 2], elems = [- (1 / 2), - 1, - (3 / 2), - 2]\<rparr>]\<rparr>)"
    by (simp add: SGD_step_def SGD_init_def step_body_def store_wide_grad_def nd_sub_def
        nd_add_def nd_binop_def scalar_mul_def nd_zeros_def upt_rec Let_def eval_nat_numeral
        broadcast_shape_def pad_shape_def broadcast_dim_def offset_def)
  show ?thesis
    using 1 2 by (simp add: store_wide_grad_def)
qed

end
